theory Spec2Isabelle
  imports Complex_Main
begin

section \<open>The single-position trading environment (trade_environment.py)\<close>

text \<open>
  The embedding follows class \<open>TradingEnv\<close>. Python floats are taken as real numbers
  (no rounding error, no overflow); NaN and the infinities are made explicit where a
  division can produce them. Attributes of \<open>self\<close> become fields of a state record that
  every method takes and returns; an exception is the \<open>Inl\<close> branch of a sum, and the
  partly updated object an exception leaves behind is not kept. The strings
  \<open>entry_time\<close> and \<open>exit_time\<close> of a position (renderings of the timestamp index) are
  left out: no computation reads them.

  A division by zero depends on the operands. Between two Python numbers it raises
  ZeroDivisionError; as soon as one operand is a numpy float it returns an infinity or
  NaN and the computation goes on. The configured numbers are Python numbers, every
  price read from the arrays is a numpy float, and so is the profit of a trade: the
  balance is a Python number until the first close after construction or reset and a
  numpy float from then on, and the peak balance is whichever of the two objects
  \<open>max\<close> returned. The state records this in two flags.
\<close>

subsection \<open>Errors and constants\<close>

datatype error =
    IndexError                \<comment> \<open>an array read past its end\<close>
  | ZeroDivisionError         \<comment> \<open>a division of two Python numbers by zero\<close>
  | InsufficientData nat      \<comment> \<open>ValueError "Insufficient data after preprocessing: n bars"\<close>

definition POINT_VALUE :: real where "POINT_VALUE = 1 / 100"
definition PIP_VALUE :: real where "PIP_VALUE = 1 / 10000"
definition MIN_LOTS :: real where "MIN_LOTS = 1 / 100"
definition MAX_LOTS :: real where "MAX_LOTS = 100"
definition CONTRACT_SIZE :: real where "CONTRACT_SIZE = 1"
definition MAX_DRAWDOWN :: real where "MAX_DRAWDOWN = 1 / 2"

subsection \<open>Values that may be NaN or infinite\<close>

datatype npfloat = Fin real | PInf | NInf | NaN

definition clip :: "real \<Rightarrow> real \<Rightarrow> real \<Rightarrow> real" where
  "clip lo hi x = min hi (max lo x)"

fun fneg :: "npfloat \<Rightarrow> npfloat" where
  "fneg (Fin a) = Fin (- a)"
| "fneg PInf = NInf"
| "fneg NInf = PInf"
| "fneg NaN = NaN"

fun fadd :: "npfloat \<Rightarrow> npfloat \<Rightarrow> npfloat" where
  "fadd (Fin a) (Fin b) = Fin (a + b)"
| "fadd NaN y = NaN"
| "fadd x NaN = NaN"
| "fadd PInf NInf = NaN"
| "fadd NInf PInf = NaN"
| "fadd PInf y = PInf"
| "fadd x PInf = PInf"
| "fadd NInf y = NInf"
| "fadd x NInf = NInf"

definition fsub :: "npfloat \<Rightarrow> npfloat \<Rightarrow> npfloat" where
  "fsub x y = fadd x (fneg y)"

text \<open>The infinity with the sign of a non-zero finite number.\<close>

definition inf_of_sign :: "real \<Rightarrow> npfloat" where
  "inf_of_sign a = (if 0 < a then PInf else NInf)"

fun fmul :: "npfloat \<Rightarrow> npfloat \<Rightarrow> npfloat" where
  "fmul (Fin a) (Fin b) = Fin (a * b)"
| "fmul NaN y = NaN"
| "fmul x NaN = NaN"
| "fmul (Fin a) PInf = (if a = 0 then NaN else inf_of_sign a)"
| "fmul (Fin a) NInf = (if a = 0 then NaN else inf_of_sign (- a))"
| "fmul PInf (Fin b) = (if b = 0 then NaN else inf_of_sign b)"
| "fmul NInf (Fin b) = (if b = 0 then NaN else inf_of_sign (- b))"
| "fmul PInf PInf = PInf"
| "fmul NInf NInf = PInf"
| "fmul PInf NInf = NInf"
| "fmul NInf PInf = NInf"

text \<open>Division as numpy performs it with the warnings silenced: a finite non-zero number
  over zero is an infinity, zero over zero is NaN. (The reals have one zero; the sign a
  negative zero would give the infinity is not modelled.)\<close>

fun fdiv :: "npfloat \<Rightarrow> npfloat \<Rightarrow> npfloat" where
  "fdiv (Fin a) (Fin b) =
     (if b \<noteq> 0 then Fin (a / b) else if a = 0 then NaN else inf_of_sign a)"
| "fdiv NaN y = NaN"
| "fdiv x NaN = NaN"
| "fdiv (Fin a) PInf = Fin 0"
| "fdiv (Fin a) NInf = Fin 0"
| "fdiv PInf (Fin b) = (if 0 \<le> b then PInf else NInf)"
| "fdiv NInf (Fin b) = (if 0 \<le> b then NInf else PInf)"
| "fdiv PInf PInf = NaN"
| "fdiv PInf NInf = NaN"
| "fdiv NInf PInf = NaN"
| "fdiv NInf NInf = NaN"

text \<open>\<open>np.clip\<close> keeps NaN and cuts the infinities to the bounds.\<close>

fun fclip :: "real \<Rightarrow> real \<Rightarrow> npfloat \<Rightarrow> npfloat" where
  "fclip lo hi (Fin a) = Fin (clip lo hi a)"
| "fclip lo hi PInf = Fin hi"
| "fclip lo hi NInf = Fin lo"
| "fclip lo hi NaN = NaN"

fun fle :: "npfloat \<Rightarrow> npfloat \<Rightarrow> bool" where
  "fle (Fin a) (Fin b) = (a \<le> b)"
| "fle NaN y = False"
| "fle x NaN = False"
| "fle NInf y = True"
| "fle x PInf = True"
| "fle x NInf = False"
| "fle PInf y = False"


subsection \<open>Configuration\<close>

text \<open>The constructor's arguments \<open>initial_balance\<close>, \<open>balance_per_lot\<close> (kept as
  \<open>BALANCE_PER_LOT\<close>) and \<open>random_start\<close>, and two functions of the libraries that are
  not part of the repository and are taken as parameters: \<open>py_round2 x\<close> is what the
  built-in \<open>round(x, 2)\<close> returns for a Python float and \<open>np_round2 x\<close> what it returns for
  a numpy float. Both work on the binary representation, so neither is the rounding of
  the real number \<open>x\<close>; a theorem that depends on a rounded value states what it needs of
  them.\<close>

record config =
  initial_balance :: real
  BALANCE_PER_LOT :: real
  random_start :: bool
  py_round2 :: "real \<Rightarrow> real"
  np_round2 :: "real \<Rightarrow> real"

subsection \<open>Data model\<close>

text \<open>\<open>self.prices\<close> together with \<open>self.raw_data\<close>: parallel arrays over the rows that
  survive preprocessing. \<open>raw_data\<close> holds one six-feature row per bar.\<close>

record price_data =
  p_close :: "real list"
  p_high :: "real list"
  p_low :: "real list"
  p_spread :: "real list"
  p_atr :: "npfloat list"
  raw_data :: "npfloat list list"

definition data_length :: "price_data \<Rightarrow> nat" where
  "data_length d = length (raw_data d)"

record position =
  direction :: int
  entry_price :: real
  lot_size :: real
  entry_step :: nat
  entry_atr :: npfloat
  current_profit_pips :: real

text \<open>A closed trade is the position dictionary after \<open>update\<close> added the exit keys.\<close>

record trade = position +
  exit_price :: real
  exit_step :: nat
  profit_pips :: real
  pnl :: real
  hold_time :: int

record trade_metrics =
  win_rate :: real
  avg_profit :: real
  avg_loss :: real
  current_direction :: int

text \<open>\<open>balance_np\<close> and \<open>peak_np\<close> say that \<open>balance\<close> and \<open>max_balance\<close> are numpy
  floats.\<close>

record env_state =
  current_step :: nat
  balance :: real
  balance_np :: bool
  max_balance :: real
  peak_np :: bool
  previous_balance :: real
  trades :: "trade list"
  current_position :: "position option"
  win_count :: nat
  loss_count :: nat
  reward :: npfloat
  completed_episodes :: nat
  episode_steps :: nat
  metrics :: trade_metrics

record position_info =
  pi_direction_long :: bool
  pi_entry_price :: real
  pi_lot_size :: real
  pi_unrealized_pnl :: real
  pi_profit_pips :: real
  pi_hold_time :: int

record step_info =
  info_balance :: real
  info_total_pnl :: real
  info_drawdown :: npfloat
  info_position :: "position_info option"
  info_trade_metrics :: trade_metrics

record step_result =
  obs :: "npfloat list"
  step_reward :: npfloat
  terminated :: bool
  truncated :: bool
  info :: step_info

subsection \<open>Array reads and divisions\<close>

text \<open>Reading a numpy array at a non-negative index raises IndexError past the end.\<close>

definition index :: "'a list \<Rightarrow> nat \<Rightarrow> error + 'a" where
  "index xs i = (if i < length xs then Inr (xs ! i) else Inl IndexError)"

text \<open>\<open>a / b\<close> for an account number \<open>a\<close> and a divisor \<open>b\<close>; \<open>np\<close> says that one of
  the operands is a numpy float.\<close>

definition num_div :: "bool \<Rightarrow> real \<Rightarrow> real \<Rightarrow> error + npfloat" where
  "num_div np a b =
     (if b = 0 \<and> \<not> np then Inl ZeroDivisionError else Inr (fdiv (Fin a) (Fin b)))"

subsection \<open>The trading operations\<close>

definition process_action :: "int \<Rightarrow> int" where
  "process_action action = action mod 4"

text \<open>The lot size expression of \<open>_execute_trade\<close>:
  \<open>max(MIN_LOTS, min(MAX_LOTS, round(balance / BALANCE_PER_LOT, 2)))\<close>. \<open>round\<close> leaves an
  infinity and NaN as they are; \<open>min(MAX_LOTS, r)\<close> is \<open>r\<close> only where \<open>r < MAX_LOTS\<close>, and
  \<open>max(MIN_LOTS, m)\<close> is \<open>m\<close> only where \<open>m > MIN_LOTS\<close>.\<close>

fun clamp_lots :: "npfloat \<Rightarrow> real" where
  "clamp_lots (Fin x) = max MIN_LOTS (min MAX_LOTS x)"
| "clamp_lots PInf = MAX_LOTS"
| "clamp_lots NInf = MIN_LOTS"
| "clamp_lots NaN = MAX_LOTS"

fun round2 :: "config \<Rightarrow> bool \<Rightarrow> npfloat \<Rightarrow> npfloat" where
  "round2 cfg np (Fin x) = Fin ((if np then np_round2 cfg else py_round2 cfg) x)"
| "round2 cfg np PInf = PInf"
| "round2 cfg np NInf = NInf"
| "round2 cfg np NaN = NaN"

definition compute_lot_size :: "config \<Rightarrow> env_state \<Rightarrow> error + real" where
  "compute_lot_size cfg s =
     (case num_div (balance_np s) (balance s) (BALANCE_PER_LOT cfg) of
        Inl e \<Rightarrow> Inl e
      | Inr q \<Rightarrow> Inr (clamp_lots (round2 cfg (balance_np s) q)))"

definition execute_trade ::
  "config \<Rightarrow> price_data \<Rightarrow> int \<Rightarrow> real \<Rightarrow> env_state \<Rightarrow> error + env_state" where
  "execute_trade cfg d dir raw_spread s =
     (if current_position s \<noteq> None then Inr s
      else case index (p_close d) (current_step s) of
        Inl e \<Rightarrow> Inl e
      | Inr current_price \<Rightarrow>
          (case index (p_atr d) (current_step s) of
             Inl e \<Rightarrow> Inl e
           | Inr current_atr \<Rightarrow>
               (case compute_lot_size cfg s of
                  Inl e \<Rightarrow> Inl e
                | Inr lot \<Rightarrow>
                    let p = \<lparr> direction = (if dir = 1 then 1 else - 1),
                              entry_price =
                                current_price + (if dir = 1 then raw_spread else - raw_spread),
                              lot_size = lot,
                              entry_step = current_step s,
                              entry_atr = current_atr,
                              current_profit_pips = 0 \<rparr>
                    in Inr (s\<lparr> current_position := Some p,
                               metrics := (metrics s)\<lparr> current_direction := direction p \<rparr> \<rparr>))))"

text \<open>The profit in price units of a position at a price, as \<open>_close_position\<close> and
  \<open>_manage_position\<close> both compute it, and the record that \<open>_close_position\<close> appends to
  the history.\<close>

definition profit_points_of :: "position \<Rightarrow> real \<Rightarrow> real" where
  "profit_points_of p current_price =
     (if direction p = 1 then current_price - entry_price p
      else entry_price p - current_price)"

definition close_trade :: "position \<Rightarrow> real \<Rightarrow> nat \<Rightarrow> trade" where
  "close_trade p current_price step_now =
     \<lparr> direction = direction p,
       entry_price = entry_price p,
       lot_size = lot_size p,
       entry_step = entry_step p,
       entry_atr = entry_atr p,
       current_profit_pips = current_profit_pips p,
       exit_price = current_price,
       exit_step = step_now,
       profit_pips = profit_points_of p current_price / PIP_VALUE,
       pnl = profit_points_of p current_price * lot_size p,
       hold_time = int step_now - int (entry_step p) \<rparr>"

text \<open>The recomputation of the trade metrics at the end of \<open>_close_position\<close>.\<close>

definition winning_trades :: "trade list \<Rightarrow> trade list" where
  "winning_trades ts = filter (\<lambda>t. 0 < pnl t) ts"

definition losing_trades :: "trade list \<Rightarrow> trade list" where
  "losing_trades ts = filter (\<lambda>t. pnl t \<le> 0) ts"

definition update_metrics :: "trade list \<Rightarrow> trade_metrics \<Rightarrow> trade_metrics" where
  "update_metrics ts m =
     (if ts = [] then m
      else m\<lparr> win_rate := real (length (winning_trades ts)) / real (length ts),
              avg_profit :=
                (if winning_trades ts \<noteq> []
                 then sum_list (map pnl (winning_trades ts)) / real (length (winning_trades ts))
                 else 0),
              avg_loss :=
                (if losing_trades ts \<noteq> []
                 then sum_list (map pnl (losing_trades ts)) / real (length (losing_trades ts))
                 else 0) \<rparr>)"

text \<open>\<open>_close_position\<close> returns the new state and its own return value: \<open>-0.1\<close> with
  nothing open, otherwise the realized profit in percent of the initial balance scaled
  by the hold-time factor. The profit is a numpy float, so that quotient never raises
  and the balance is a numpy float afterwards.\<close>

definition close_position ::
  "config \<Rightarrow> price_data \<Rightarrow> env_state \<Rightarrow> error + env_state \<times> npfloat" where
  "close_position cfg d s =
     (case current_position s of
        None \<Rightarrow> Inr (s, Fin (- (1 / 10)))
      | Some p \<Rightarrow>
          (case index (p_close d) (current_step s) of
             Inl e \<Rightarrow> Inl e
           | Inr current_price \<Rightarrow>
               let t = close_trade p current_price (current_step s);
                   ts = trades s @ [t];
                   hold_factor = min 1 (real_of_int (hold_time t) / 20);
                   normalized_pnl = fmul (fdiv (Fin (pnl t)) (Fin (initial_balance cfg))) (Fin 100)
               in Inr (s\<lparr> win_count := (if 0 < pnl t then win_count s + 1 else win_count s),
                          loss_count := (if 0 < pnl t then loss_count s else loss_count s + 1),
                          trades := ts,
                          balance := balance s + pnl t,
                          balance_np := True,
                          current_position := None,
                          metrics := update_metrics ts ((metrics s)\<lparr> current_direction := 0 \<rparr>) \<rparr>,
                        fmul normalized_pnl (Fin hold_factor))))"

definition manage_position :: "price_data \<Rightarrow> env_state \<Rightarrow> error + env_state \<times> real" where
  "manage_position d s =
     (case current_position s of
        None \<Rightarrow> Inr (s, 0)
      | Some p \<Rightarrow>
          (case index (p_close d) (current_step s) of
             Inl e \<Rightarrow> Inl e
           | Inr current_price \<Rightarrow>
               Inr (s\<lparr> current_position :=
                          Some (p\<lparr> current_profit_pips :=
                                     profit_points_of p current_price / PIP_VALUE \<rparr>) \<rparr>,
                    profit_points_of p current_price * lot_size p)))"

text \<open>\<open>calculate_reward\<close>: the balance change over the initial balance. The difference is
  a numpy float once the balance is one.\<close>

definition calculate_reward :: "config \<Rightarrow> env_state \<Rightarrow> real \<Rightarrow> error + npfloat" where
  "calculate_reward cfg s unrealized_pnl =
     num_div (balance_np s) (balance s - previous_balance s) (initial_balance cfg)"

text \<open>\<open>get_history\<close>: the unrealized profit is a numpy float, so its quotient by the
  initial balance never raises; \<open>np.clip\<close> follows.\<close>

definition get_history ::
  "config \<Rightarrow> price_data \<Rightarrow> env_state \<Rightarrow> error + env_state \<times> npfloat list" where
  "get_history cfg d s =
     (case index (raw_data d) (current_step s) of
        Inl e \<Rightarrow> Inl e
      | Inr features \<Rightarrow>
          (if current_position s \<noteq> None
           then (case manage_position d s of
                   Inl e \<Rightarrow> Inl e
                 | Inr (s', unrealized_pnl) \<Rightarrow>
                     Inr (s', features @
                            [fclip (- 1) 1 (fdiv (Fin unrealized_pnl) (Fin (initial_balance cfg)))]))
           else Inr (s, features @ [Fin 0])))"

subsection \<open>The step function\<close>

text \<open>The branch on the normalized action inside \<open>step\<close>; the value returned by
  \<open>_execute_trade\<close> and \<open>_close_position\<close> is dropped there.\<close>

definition apply_action ::
  "config \<Rightarrow> price_data \<Rightarrow> int \<Rightarrow> real \<Rightarrow> env_state \<Rightarrow> error + env_state" where
  "apply_action cfg d a current_spread s =
     (if a = 1 then execute_trade cfg d 1 current_spread s
      else if a = 2 then execute_trade cfg d 2 current_spread s
      else if a = 3 then map_sum id fst (close_position cfg d s)
      else Inr s)"

text \<open>The terminal conditions of \<open>step\<close>. The drawdown is
  \<open>(max_balance - balance) / max_balance\<close>, a division of Python numbers while neither
  of the two is a numpy float.\<close>

definition end_of_data :: "price_data \<Rightarrow> env_state \<Rightarrow> bool" where
  "end_of_data d s = (int (data_length d) - 1 \<le> int (current_step s))"

definition drawdown :: "env_state \<Rightarrow> error + npfloat" where
  "drawdown s =
     num_div (peak_np s \<or> balance_np s) (max_balance s - balance s) (max_balance s)"

definition is_done :: "price_data \<Rightarrow> env_state \<Rightarrow> npfloat \<Rightarrow> bool" where
  "is_done d s max_drawdown =
     (end_of_data d s \<or> balance s \<le> 0 \<or> fle (Fin MAX_DRAWDOWN) max_drawdown)"

text \<open>The automatic close at the end of an episode.\<close>

definition auto_close :: "config \<Rightarrow> price_data \<Rightarrow> bool \<Rightarrow> env_state \<Rightarrow> error + env_state" where
  "auto_close cfg d done s =
     (if done \<and> current_position s \<noteq> None then map_sum id fst (close_position cfg d s)
      else Inr s)"

text \<open>The \<open>position\<close> entry of the info dictionary: empty when no position is open.\<close>

definition position_info_of :: "env_state \<Rightarrow> real \<Rightarrow> position_info option" where
  "position_info_of s unrealized_pnl =
     map_option (\<lambda>p. \<lparr> pi_direction_long = (direction p = 1),
                        pi_entry_price = entry_price p,
                        pi_lot_size = lot_size p,
                        pi_unrealized_pnl = unrealized_pnl,
                        pi_profit_pips = current_profit_pips p,
                        pi_hold_time = int (current_step s) - int (entry_step p) \<rparr>)
       (current_position s)"

text \<open>The bookkeeping of \<open>step\<close> before the action is applied: the balance snapshot,
  the running peak and the two counters. \<open>max(balance, max_balance)\<close> returns the old
  peak only where it is larger than the balance.\<close>

definition begin_step :: "env_state \<Rightarrow> env_state" where
  "begin_step s =
     s\<lparr> previous_balance := balance s,
        max_balance := max (balance s) (max_balance s),
        peak_np := (if balance s < max_balance s then peak_np s else balance_np s),
        episode_steps := episode_steps s + 1,
        current_step := current_step s + 1 \<rparr>"

definition step :: "config \<Rightarrow> price_data \<Rightarrow> int \<Rightarrow> env_state \<Rightarrow> error + env_state \<times> step_result" where
  "step cfg d action s =
     (case index (p_spread d) (current_step s) of
        Inl e \<Rightarrow> Inl e
      | Inr sp \<Rightarrow>
          let current_spread = sp * POINT_VALUE;
              s1 = begin_step s
          in case apply_action cfg d (process_action action) current_spread s1 of
               Inl e \<Rightarrow> Inl e
             | Inr s2 \<Rightarrow>
                 (case manage_position d s2 of
                    Inl e \<Rightarrow> Inl e
                  | Inr (s3, unrealized_pnl) \<Rightarrow>
                      (case drawdown s3 of
                         Inl e \<Rightarrow> Inl e
                       | Inr max_drawdown \<Rightarrow>
                           (case auto_close cfg d (is_done d s3 max_drawdown) s3 of
                              Inl e \<Rightarrow> Inl e
                            | Inr s4 \<Rightarrow>
                                (case calculate_reward cfg s4 unrealized_pnl of
                                   Inl e \<Rightarrow> Inl e
                                 | Inr r \<Rightarrow>
                                     (case get_history cfg d (s4\<lparr> reward := r \<rparr>) of
                                        Inl e \<Rightarrow> Inl e
                                      | Inr (s6, ob) \<Rightarrow>
                                          Inr (s6,
                                               \<lparr> obs = ob,
                                                 step_reward = r,
                                                 terminated = is_done d s3 max_drawdown,
                                                 truncated = end_of_data d s6,
                                                 info =
                                                   \<lparr> info_balance = balance s6,
                                                     info_total_pnl = balance s6 - initial_balance cfg,
                                                     info_drawdown = fmul max_drawdown (Fin 100),
                                                     info_position = position_info_of s6 unrealized_pnl,
                                                     info_trade_metrics = metrics s6 \<rparr> \<rparr>)))))))"

subsection \<open>Construction state and reset\<close>

definition zero_metrics :: trade_metrics where
  "zero_metrics = \<lparr> win_rate = 0, avg_profit = 0, avg_loss = 0, current_direction = 0 \<rparr>"

text \<open>The state the constructor leaves once preprocessing has succeeded.\<close>

definition init_state :: "config \<Rightarrow> env_state" where
  "init_state cfg =
     \<lparr> current_step = 0,
       balance = initial_balance cfg,
       balance_np = False,
       max_balance = initial_balance cfg,
       peak_np = False,
       previous_balance = initial_balance cfg,
       trades = [],
       current_position = None,
       win_count = 0,
       loss_count = 0,
       reward = Fin 0,
       completed_episodes = 0,
       episode_steps = 0,
       metrics = zero_metrics \<rparr>"

text \<open>\<open>np.random.randint(low, high)\<close> draws from the half-open interval: \<open>randint low high r\<close>
  says that \<open>r\<close> is a possible result. With \<open>low >= high\<close> the call raises and there is
  none. The seed only selects which of the possible results is drawn.\<close>

inductive randint :: "int \<Rightarrow> int \<Rightarrow> int \<Rightarrow> bool" where
  randint_draw: "low \<le> r \<Longrightarrow> r < high \<Longrightarrow> randint low high r"

code_pred randint .

text \<open>The assignments of \<open>reset\<close> after the start offset has been chosen.\<close>

definition reset_fields :: "config \<Rightarrow> nat \<Rightarrow> env_state \<Rightarrow> env_state" where
  "reset_fields cfg start s =
     s\<lparr> current_step := start,
        balance := initial_balance cfg,
        balance_np := False,
        max_balance := initial_balance cfg,
        peak_np := False,
        previous_balance := initial_balance cfg,
        trades := [],
        current_position := None,
        win_count := 0,
        loss_count := 0,
        episode_steps := 0,
        metrics := zero_metrics,
        completed_episodes := completed_episodes s + 1 \<rparr>"

text \<open>\<open>reset cfg d s (s', ob)\<close>: a call of \<open>reset\<close> in state \<open>s\<close> can return the
  observation \<open>ob\<close> and leave state \<open>s'\<close>.\<close>

inductive reset :: "config \<Rightarrow> price_data \<Rightarrow> env_state \<Rightarrow> env_state \<times> npfloat list \<Rightarrow> bool" where
  reset_random:
    "random_start cfg \<Longrightarrow>
     randint 0 (max 0 (int (data_length d) - 100)) r \<Longrightarrow>
     get_history cfg d (reset_fields cfg (nat r) s) = Inr res \<Longrightarrow>
     reset cfg d s res"
| reset_fixed:
    "\<not> random_start cfg \<Longrightarrow>
     get_history cfg d (reset_fields cfg 0 s) = Inr res \<Longrightarrow>
     reset cfg d s res"

text \<open>The states an engine over data \<open>d\<close> can be in: after construction, after a reset,
  after a step that returned.\<close>

inductive reachable :: "config \<Rightarrow> price_data \<Rightarrow> env_state \<Rightarrow> bool" where
  reach_init: "reachable cfg d (init_state cfg)"
| reach_reset: "reachable cfg d s \<Longrightarrow> reset cfg d s (s', ob) \<Longrightarrow> reachable cfg d s'"
| reach_step: "reachable cfg d s \<Longrightarrow> step cfg d a s = Inr (s', out) \<Longrightarrow> reachable cfg d s'"

section \<open>The feature pipeline (\<open>_preprocess_data\<close>)\<close>

text \<open>
  A bar table is a list of bars in time order; a row is addressed by its position, the
  timestamp index being unique. Every column holds finite numbers (the type excludes
  NaN in the input), and the optional volume column is not read by any indicator.
  Columns that can only be finite or NaN (the results of a rolling mean over finite
  numbers, and what is computed from them with guarded divisions) are lists of
  \<open>real option\<close> with \<open>None\<close> for NaN; columns where a division by zero can produce an
  infinity are lists of \<open>npfloat\<close>.
\<close>

record bar =
  b_open :: real
  b_high :: real
  b_low :: real
  b_close :: real
  b_spread :: real

definition eps8 :: real where
  "eps8 = 1 / 100000000"

subsection \<open>Missing values of a column\<close>

definition of_opt :: "real option \<Rightarrow> npfloat" where
  "of_opt x = (case x of None \<Rightarrow> NaN | Some a \<Rightarrow> Fin a)"

text \<open>\<open>np.nanmin\<close> and \<open>np.nanmax\<close>: the extremum of the entries that are not NaN, and NaN
  when there is none.\<close>

definition nan_free :: "npfloat list \<Rightarrow> npfloat list" where
  "nan_free xs = filter (\<lambda>x. x \<noteq> NaN) xs"

definition nanmin :: "npfloat list \<Rightarrow> npfloat" where
  "nanmin xs =
     (case nan_free xs of [] \<Rightarrow> NaN | y # ys \<Rightarrow> foldl (\<lambda>m x. if fle x m then x else m) y ys)"

definition nanmax :: "npfloat list \<Rightarrow> npfloat" where
  "nanmax xs =
     (case nan_free xs of [] \<Rightarrow> NaN | y # ys \<Rightarrow> foldl (\<lambda>m x. if fle m x then x else m) y ys)"

subsection \<open>Rolling windows\<close>

text \<open>The window of width \<open>w\<close> that ends at position \<open>i\<close>: the last \<open>w\<close> entries up to and
  including \<open>i\<close>, fewer at the start of the series.\<close>

definition window :: "nat \<Rightarrow> 'a list \<Rightarrow> nat \<Rightarrow> 'a list" where
  "window w xs i = drop (i + 1 - w) (take (i + 1) xs)"

text \<open>\<open>pd.Series(xs).rolling(w).mean()\<close> over finite numbers: NaN until the window is
  full.\<close>

definition rolling_mean :: "nat \<Rightarrow> real list \<Rightarrow> real option list" where
  "rolling_mean w xs =
     map (\<lambda>i. if i + 1 < w then None else Some (sum_list (window w xs i) / real w))
       [0..<length xs]"

text \<open>\<open>rolling(w, min_periods=1).mean()\<close>: the mean of the entries of the window that are
  not NaN, and NaN when there is none.\<close>

definition valid :: "real option list \<Rightarrow> real list" where
  "valid xs = map the (filter (\<lambda>x. x \<noteq> None) xs)"

definition rolling_mean_min1 :: "nat \<Rightarrow> real option list \<Rightarrow> real option list" where
  "rolling_mean_min1 w xs =
     map (\<lambda>i. let v = valid (window w xs i)
               in if v = [] then None else Some (sum_list v / real (length v)))
       [0..<length xs]"

text \<open>\<open>rolling(w, min_periods=1).std()\<close>: the sample standard deviation (divisor one less
  than the count) of the entries that are not NaN, NaN with fewer than two of them.\<close>

definition sample_std :: "real list \<Rightarrow> real" where
  "sample_std v =
     (let m = sum_list v / real (length v)
      in sqrt (sum_list (map (\<lambda>x. (x - m)\<^sup>2) v) / real (length v - 1)))"

definition rolling_std_min1 :: "nat \<Rightarrow> real option list \<Rightarrow> real option list" where
  "rolling_std_min1 w xs =
     map (\<lambda>i. let v = valid (window w xs i)
               in if length v < 2 then None else Some (sample_std v))
       [0..<length xs]"

definition fillna :: "real \<Rightarrow> real option list \<Rightarrow> real list" where
  "fillna c xs = map (\<lambda>x. case x of None \<Rightarrow> c | Some a \<Rightarrow> a) xs"

text \<open>An operation on two columns where NaN in either operand gives NaN.\<close>

definition lift2 :: "(real \<Rightarrow> real \<Rightarrow> real) \<Rightarrow> real option \<Rightarrow> real option \<Rightarrow> real option" where
  "lift2 f x y = (case (x, y) of (Some a, Some b) \<Rightarrow> Some (f a b) | _ \<Rightarrow> None)"

text \<open>\<open>np.roll(xs, 1)\<close> and \<open>np.diff(xs)\<close>.\<close>

definition roll1 :: "'a list \<Rightarrow> 'a list" where
  "roll1 xs = (if xs = [] then [] else last xs # butlast xs)"

definition diff :: "real list \<Rightarrow> real list" where
  "diff xs = map (\<lambda>i. xs ! (i + 1) - xs ! i) [0..<length xs - 1]"

subsection \<open>The indicators\<close>

definition tr :: "bar list \<Rightarrow> real list" where
  "tr bars =
     (let high = map b_high bars; low = map b_low bars; prev = roll1 (map b_close bars)
      in (map (\<lambda>i. max (high ! i - low ! i)
                      (max \<bar>high ! i - prev ! i\<bar> \<bar>low ! i - prev ! i\<bar>))
            [0..<length bars])
         [0 := high ! 0 - low ! 0])"

definition atr :: "bar list \<Rightarrow> real option list" where
  "atr bars = rolling_mean 14 (tr bars)"

text \<open>\<open>pd.Series(close).diff().fillna(0)\<close>.\<close>

definition delta :: "bar list \<Rightarrow> real list" where
  "delta bars = (if bars = [] then [] else 0 # diff (map b_close bars))"

definition gain :: "bar list \<Rightarrow> real option list" where
  "gain bars = rolling_mean 14 (map (\<lambda>x. if 0 < x then x else 0) (delta bars))"

definition loss :: "bar list \<Rightarrow> real option list" where
  "loss bars = rolling_mean 14 (map (\<lambda>x. if x < 0 then - x else 0) (delta bars))"

text \<open>\<open>rs\<close> starts as zeros and receives \<open>gain / loss\<close> where \<open>loss != 0\<close>; NaN counts as
  different from zero. A loss average that is not zero is positive, so the division is
  one of finite numbers.\<close>

definition rs :: "bar list \<Rightarrow> real option list" where
  "rs bars =
     map (\<lambda>(g, l). case l of
                      None \<Rightarrow> None
                    | Some lv \<Rightarrow> if lv \<noteq> 0 then map_option (\<lambda>gv. gv / lv) g else Some 0)
       (zip (gain bars) (loss bars))"

definition rsi :: "bar list \<Rightarrow> real option list" where
  "rsi bars = map (map_option (\<lambda>r. 100 - 100 / (1 + r))) (rs bars)"

definition returns :: "bar list \<Rightarrow> npfloat list" where
  "returns bars =
     (let close = map b_close bars
      in map (fclip (- (1 / 10)) (1 / 10))
           (Fin 0 # map (\<lambda>i. fdiv (Fin (diff close ! i)) (Fin (close ! i))) [0..<length close - 1]))"

definition pdm :: "bar list \<Rightarrow> real list" where
  "pdm bars = 0 # map (\<lambda>x. max x 0) (diff (map b_high bars))"

definition ndm :: "bar list \<Rightarrow> real list" where
  "ndm bars = 0 # map (\<lambda>x. max (- x) 0) (diff (map b_low bars))"

definition pdm_smooth :: "bar list \<Rightarrow> real list" where
  "pdm_smooth bars = fillna 0 (rolling_mean_min1 14 (map Some (pdm bars)))"

definition ndm_smooth :: "bar list \<Rightarrow> real list" where
  "ndm_smooth bars = fillna 0 (rolling_mean_min1 14 (map Some (ndm bars)))"

definition atr_safe :: "bar list \<Rightarrow> real option list" where
  "atr_safe bars = map (map_option (\<lambda>a. if a < eps8 then eps8 else a)) (atr bars)"

text \<open>\<open>atr_safe\<close> is at least \<open>1e-8\<close> wherever it is a number, so these quotients are
  quotients of finite numbers by a non-zero one.\<close>

definition pdi :: "bar list \<Rightarrow> real option list" where
  "pdi bars = map (\<lambda>(p, a). map_option (\<lambda>av. p / av * 100) a) (zip (pdm_smooth bars) (atr_safe bars))"

definition ndi :: "bar list \<Rightarrow> real option list" where
  "ndi bars = map (\<lambda>(p, a). map_option (\<lambda>av. p / av * 100) a) (zip (ndm_smooth bars) (atr_safe bars))"

definition sum_di :: "bar list \<Rightarrow> real option list" where
  "sum_di bars =
     map (map_option (\<lambda>x. if x < eps8 then eps8 else x))
       (map (\<lambda>(p, n). lift2 (+) p n) (zip (pdi bars) (ndi bars)))"

definition dx :: "bar list \<Rightarrow> real option list" where
  "dx bars =
     map (\<lambda>((p, n), s). lift2 (\<lambda>a b. a / b * 100) (lift2 (\<lambda>x y. \<bar>x - y\<bar>) p n) s)
       (zip (zip (pdi bars) (ndi bars)) (sum_di bars))"

definition adx :: "bar list \<Rightarrow> real list" where
  "adx bars = fillna 0 (rolling_mean_min1 14 (dx bars))"

definition trend_strength :: "bar list \<Rightarrow> real list" where
  "trend_strength bars = map (\<lambda>a. clip (- 1) 1 (a / 25 - 1)) (adx bars)"

definition boll_std :: "bar list \<Rightarrow> real list" where
  "boll_std bars = fillna 0 (rolling_std_min1 20 (map (Some \<circ> b_close) bars))"

definition ma20 :: "bar list \<Rightarrow> real list" where
  "ma20 bars = fillna (b_close (bars ! 0)) (rolling_mean_min1 20 (map (Some \<circ> b_close) bars))"

definition upper_band :: "bar list \<Rightarrow> real list" where
  "upper_band bars = map (\<lambda>(m, s). m + s * 2) (zip (ma20 bars) (boll_std bars))"

definition lower_band :: "bar list \<Rightarrow> real list" where
  "lower_band bars = map (\<lambda>(m, s). m - s * 2) (zip (ma20 bars) (boll_std bars))"

definition band_range :: "bar list \<Rightarrow> real list" where
  "band_range bars =
     map (\<lambda>(u, l). if u - l < eps8 then eps8 else u - l) (zip (upper_band bars) (lower_band bars))"

text \<open>\<open>np.divide(position, band_range, out=zeros, where=band_range != 0)\<close>, clipped.\<close>

definition volatility_breakout :: "bar list \<Rightarrow> real list" where
  "volatility_breakout bars =
     map (\<lambda>((c, l), r). clip 0 1 (if r \<noteq> 0 then (c - l) / r else 0))
       (zip (zip (map b_close bars) (lower_band bars)) (band_range bars))"

definition candle_pattern :: "bar list \<Rightarrow> npfloat list" where
  "candle_pattern bars =
     map (\<lambda>b. let body = b_close b - b_open b;
                   upper_wick = b_high b - max (b_close b) (b_open b);
                   lower_wick = min (b_close b) (b_open b) - b_low b;
                   rng = b_high b - b_low b + eps8
               in fclip (- 1) 1
                    (fdiv (fadd (fdiv (Fin body) (Fin rng))
                                (fdiv (Fin (upper_wick - lower_wick))
                                      (Fin (upper_wick + lower_wick + eps8))))
                          (Fin 2)))
       bars"

text \<open>The stored columns \<open>rsi / 50 - 1\<close> and the min-max normalized \<open>atr / close\<close>.\<close>

definition rsi_norm :: "bar list \<Rightarrow> real option list" where
  "rsi_norm bars = map (map_option (\<lambda>r. r / 50 - 1)) (rsi bars)"

definition atr_close :: "bar list \<Rightarrow> npfloat list" where
  "atr_close bars = map (\<lambda>(a, b). fdiv (of_opt a) (Fin (b_close b))) (zip (atr bars) bars)"

definition atr_norm :: "bar list \<Rightarrow> npfloat list" where
  "atr_norm bars =
     (let r = atr_close bars; lo = nanmin r; hi = nanmax r
      in map (\<lambda>x. fsub (fdiv (fmul (Fin 2) (fsub x lo)) (fadd (fsub hi lo) (Fin eps8))) (Fin 1)) r)"

subsection \<open>Assembling and trimming the feature table\<close>

text \<open>\<open>features_df\<close>: one row per bar, paired with the position of the bar.\<close>

definition features_df :: "bar list \<Rightarrow> (nat \<times> npfloat list) list" where
  "features_df bars =
     map (\<lambda>i. (i, [returns bars ! i, of_opt (rsi_norm bars ! i), atr_norm bars ! i,
                    Fin (volatility_breakout bars ! i), Fin (trend_strength bars ! i),
                    candle_pattern bars ! i]))
       [0..<length bars]"

text \<open>\<open>dropna\<close> removes the rows with a NaN; an infinity is not a missing value.\<close>

definition dropna :: "(nat \<times> npfloat list) list \<Rightarrow> (nat \<times> npfloat list) list" where
  "dropna rows = filter (\<lambda>(i, r). NaN \<notin> set r) rows"

definition lookback :: nat where
  "lookback = max 20 14"

text \<open>\<open>_preprocess_data\<close> followed by the constructor's selection of the price columns.
  The first array write \<open>tr[0] = ...\<close> fails on an empty table.\<close>

definition preprocess_data :: "bar list \<Rightarrow> error + price_data" where
  "preprocess_data bars =
     (if bars = [] then Inl IndexError
      else let kept = drop lookback (dropna (features_df bars))
           in if length kept < 100 then Inl (InsufficientData (length kept))
              else Inr \<lparr> p_close = map (\<lambda>(i, r). b_close (bars ! i)) kept,
                         p_high = map (\<lambda>(i, r). b_high (bars ! i)) kept,
                         p_low = map (\<lambda>(i, r). b_low (bars ! i)) kept,
                         p_spread = map (\<lambda>(i, r). b_spread (bars ! i)) kept,
                         p_atr = map (\<lambda>(i, r). of_opt (atr bars ! i)) kept,
                         raw_data = map snd kept \<rparr>)"

text \<open>Bars as a price feed delivers them: a positive close, and open and close between low
  and high.\<close>

definition wf_bar :: "bar \<Rightarrow> bool" where
  "wf_bar b =
     (0 < b_close b \<and> b_low b \<le> min (b_open b) (b_close b) \<and>
      max (b_open b) (b_close b) \<le> b_high b)"

definition flat_bar :: "real \<Rightarrow> bar" where
  "flat_bar sp = \<lparr> b_open = 1, b_high = 1, b_low = 1, b_close = 1, b_spread = sp \<rparr>"

subsection \<open>The constructor\<close>

text \<open>\<open>__init__\<close>: preprocess the table, then set the initial state. A missing column is
  excluded by the type of the table.\<close>

definition construct :: "config \<Rightarrow> bar list \<Rightarrow> error + price_data \<times> env_state" where
  "construct cfg bars =
     (case preprocess_data bars of Inl e \<Rightarrow> Inl e | Inr d \<Rightarrow> Inr (d, init_state cfg))"

subsection \<open>Well-formed data, consistent metrics, a caller's loop\<close>

text \<open>The five price arrays are cut to the rows of \<open>raw_data\<close> by the constructor, so
  they all have its length.\<close>

definition wf_data :: "price_data \<Rightarrow> bool" where
  "wf_data d =
     (length (p_close d) = data_length d \<and> length (p_spread d) = data_length d \<and>
      length (p_atr d) = data_length d \<and> length (p_high d) = data_length d \<and>
      length (p_low d) = data_length d)"

text \<open>The stored win rate agrees with the trade history: zero while the history is empty
  (as the constructor and \<open>reset\<close> leave it), the share of winners afterwards.\<close>

definition metrics_consistent :: "env_state \<Rightarrow> bool" where
  "metrics_consistent s =
     (win_rate (metrics s) =
        (if trades s = [] then 0
         else real (length (winning_trades (trades s))) / real (length (trades s))))"

text \<open>A caller that issues a list of actions one after the other and collects the outputs;
  it stops at the first exception.\<close>

fun run :: "config \<Rightarrow> price_data \<Rightarrow> int list \<Rightarrow> env_state \<Rightarrow> error + env_state \<times> step_result list" where
  "run cfg d [] s = Inr (s, [])"
| "run cfg d (a # as) s =
     (case step cfg d a s of
        Inl e \<Rightarrow> Inl e
      | Inr (s', out) \<Rightarrow>
          (case run cfg d as s' of
             Inl e \<Rightarrow> Inl e
           | Inr (s'', outs) \<Rightarrow> Inr (s'', out # outs)))"

subsection \<open>Concrete inputs\<close>

text \<open>A flat market: every bar is \<open>flat_bar sp\<close>, with open = high = low = close = 1 and
  spread \<open>sp\<close>. \<open>flat_row\<close> is the feature row the pipeline computes for such a bar once
  the indicators are defined, and \<open>flat_data n sp\<close> the price data of \<open>n\<close> surviving rows:
  what the constructor builds from \<open>n + 33\<close> flat bars (lemma \<open>preprocess_flat\<close>).\<close>

definition flat_row :: "npfloat list" where
  "flat_row = [Fin 0, Fin (- 1), Fin (- 1), Fin 0, Fin (- 1), Fin 0]"

definition flat_data :: "nat \<Rightarrow> real \<Rightarrow> price_data" where
  "flat_data n sp =
     \<lparr> p_close = replicate n 1, p_high = replicate n 1, p_low = replicate n 1,
       p_spread = replicate n sp, p_atr = replicate n (Fin 0), raw_data = replicate n flat_row \<rparr>"

text \<open>The rounding of a real number to the nearest multiple of 0.01, a tie going to the
  even one. It is not the library's \<open>round\<close>, which rounds the binary number; it stands in
  for it in the concrete configurations, where the only quotient rounded is
  \<open>10000 / 1000 = 10\<close>, which both library functions return unchanged.\<close>

definition round_half_even :: "real \<Rightarrow> int" where
  "round_half_even x =
     (let f = \<lfloor>x\<rfloor>; r = x - of_int f
      in if r < 1 / 2 then f else if 1 / 2 < r then f + 1 else if even f then f else f + 1)"

definition nearest_cent :: "real \<Rightarrow> real" where
  "nearest_cent x = of_int (round_half_even (x * 100)) / 100"

definition default_cfg :: config where
  "default_cfg =
     \<lparr> initial_balance = 10000, BALANCE_PER_LOT = 1000, random_start = False,
       py_round2 = nearest_cent, np_round2 = nearest_cent \<rparr>"

definition random_cfg :: config where
  "random_cfg =
     \<lparr> initial_balance = 10000, BALANCE_PER_LOT = 1000, random_start = True,
       py_round2 = nearest_cent, np_round2 = nearest_cent \<rparr>"

text \<open>The position a Buy opens on the first step over flat data with spread column
  \<open>sp\<close>, and the state that step leaves.\<close>

definition bought_pos :: "real \<Rightarrow> position" where
  "bought_pos sp =
     \<lparr> direction = 1, entry_price = 1 + sp * POINT_VALUE, lot_size = 10, entry_step = 1,
       entry_atr = Fin 0, current_profit_pips = (1 - (1 + sp * POINT_VALUE)) / PIP_VALUE \<rparr>"

definition bought_state :: "real \<Rightarrow> env_state" where
  "bought_state sp =
     \<lparr> current_step = 1, balance = 10000, balance_np = False, max_balance = 10000,
       peak_np = False, previous_balance = 10000,
       trades = [], current_position = Some (bought_pos sp), win_count = 0, loss_count = 0,
       reward = Fin 0, completed_episodes = 0, episode_steps = 1,
       metrics = zero_metrics\<lparr> current_direction := 1 \<rparr> \<rparr>"

text \<open>Prices that halve at row 50, with no spread; and the state of an engine that bought
  10 lots at 1000 on its first step and has held them up to row 49. The feature rows play
  no part in the bookkeeping and are those of the flat market.\<close>

definition drop_data :: price_data where
  "drop_data =
     \<lparr> p_close = replicate 50 1000 @ replicate 50 500,
       p_high = replicate 50 1000 @ replicate 50 500,
       p_low = replicate 50 1000 @ replicate 50 500,
       p_spread = replicate 100 0, p_atr = replicate 100 (Fin 0),
       raw_data = replicate 100 flat_row \<rparr>"

definition held_state :: env_state where
  "held_state =
     \<lparr> current_step = 49, balance = 10000, balance_np = False, max_balance = 10000,
       peak_np = False, previous_balance = 10000,
       trades = [],
       current_position =
         Some \<lparr> direction = 1, entry_price = 1000, lot_size = 10, entry_step = 1,
                entry_atr = Fin 0, current_profit_pips = 0 \<rparr>,
       win_count = 0, loss_count = 0, reward = Fin 0, completed_episodes = 0, episode_steps = 49,
       metrics = zero_metrics\<lparr> current_direction := 1 \<rparr> \<rparr>"

text \<open>The state of the engine that bought on flat data, one step before the last row.\<close>

definition late_state :: env_state where
  "late_state = (bought_state 2)\<lparr> current_step := 98, episode_steps := 98 \<rparr>"

text \<open>Prices that rise from 1000 to 1500 at row 2, with no spread (the feature rows again
  those of the flat market).\<close>

definition rise_data :: price_data where
  "rise_data =
     \<lparr> p_close = replicate 2 1000 @ replicate 98 1500,
       p_high = replicate 2 1000 @ replicate 98 1500,
       p_low = replicate 2 1000 @ replicate 98 1500,
       p_spread = replicate 100 0, p_atr = replicate 100 (Fin 0),
       raw_data = replicate 100 flat_row \<rparr>"


text \<open>A market that rises by one price unit per bar: bar \<open>i\<close> of \<open>rising_bars n\<close> has
  open = high = low = close = \<open>i + 1\<close>. From row 14 on, every delta of the 14-row window
  that ends at the row is a gain.\<close>

definition rising_bar :: "real \<Rightarrow> bar" where
  "rising_bar c = \<lparr> b_open = c, b_high = c, b_low = c, b_close = c, b_spread = 2 \<rparr>"

definition rising_bars :: "nat \<Rightarrow> bar list" where
  "rising_bars n = map (\<lambda>i. rising_bar (real i + 1)) [0..<n]"
section \<open>Properties of the state machine\<close>

subsection \<open>Divisions by a divisor that is not zero\<close>

lemma num_div_nonzero: "b \<noteq> 0 \<Longrightarrow> num_div np a b = Inr (Fin (a / b))"
  by (simp add: num_div_def)

lemma compute_lot_size_nonzero:
  "BALANCE_PER_LOT cfg \<noteq> 0 \<Longrightarrow>
   compute_lot_size cfg s =
     Inr (max MIN_LOTS (min MAX_LOTS
            ((if balance_np s then np_round2 cfg else py_round2 cfg)
               (balance s / BALANCE_PER_LOT cfg))))"
  by (simp add: compute_lot_size_def num_div_nonzero)

lemma drawdown_nonzero:
  "max_balance s \<noteq> 0 \<Longrightarrow> drawdown s = Inr (Fin ((max_balance s - balance s) / max_balance s))"
  by (simp add: drawdown_def num_div_nonzero)

lemma calculate_reward_nonzero:
  "initial_balance cfg \<noteq> 0 \<Longrightarrow>
   calculate_reward cfg s u = Inr (Fin ((balance s - previous_balance s) / initial_balance cfg))"
  by (simp add: calculate_reward_def num_div_nonzero)

subsection \<open>What each operation leaves alone\<close>

lemma index_Inr_iff: "index xs i = Inr x \<longleftrightarrow> i < length xs \<and> x = xs ! i"
  by (auto simp: index_def)

lemma map_sum_fst_Inr: "map_sum id fst x = Inr s' \<longleftrightarrow> (\<exists>v. x = Inr (s', v))"
  by (cases x) auto

lemma manage_position_Inr:
  assumes "manage_position d s = Inr (s', u)"
  shows "balance s' = balance s" "max_balance s' = max_balance s"
    "previous_balance s' = previous_balance s" "trades s' = trades s"
    "win_count s' = win_count s" "loss_count s' = loss_count s"
    "current_step s' = current_step s" "metrics s' = metrics s" "reward s' = reward s"
    "(current_position s' = None) = (current_position s = None)"
    "balance_np s' = balance_np s" "peak_np s' = peak_np s"
  using assms by (auto simp: manage_position_def split: option.splits sum.splits)

lemma get_history_Inr:
  assumes "get_history cfg d s = Inr (s', ob)"
  shows "balance s' = balance s" "max_balance s' = max_balance s"
    "previous_balance s' = previous_balance s" "trades s' = trades s"
    "win_count s' = win_count s" "loss_count s' = loss_count s"
    "current_step s' = current_step s" "metrics s' = metrics s" "reward s' = reward s"
    "(current_position s' = None) = (current_position s = None)"
  using assms
  by (auto simp: get_history_def dest: manage_position_Inr split: option.splits sum.splits if_splits)

lemma step_InrE:
  assumes "step cfg d a s = Inr (s', out)"
  obtains sp s2 s3 u dd s4 where
    "index (p_spread d) (current_step s) = Inr sp"
    "apply_action cfg d (process_action a) (sp * POINT_VALUE) (begin_step s) = Inr s2"
    "manage_position d s2 = Inr (s3, u)"
    "drawdown s3 = Inr dd"
    "auto_close cfg d (is_done d s3 dd) s3 = Inr s4"
    "calculate_reward cfg s4 u = Inr (step_reward out)"
    "get_history cfg d (s4\<lparr>reward := step_reward out\<rparr>) = Inr (s', obs out)"
    "terminated out = is_done d s3 dd"
    "truncated out = end_of_data d s'"
  using assms unfolding step_def Let_def
  by (auto split: sum.splits prod.splits)

lemma close_position_None:
  "current_position s = None \<Longrightarrow> close_position cfg d s = Inr (s, Fin (- (1 / 10)))"
  by (simp add: close_position_def)

lemma close_position_Some:
  assumes "current_position s = Some p" "close_position cfg d s = Inr (s', v)"
  shows "current_step s < length (p_close d)"
    "trades s' = trades s @ [close_trade p (p_close d ! current_step s) (current_step s)]"
    "balance s' = balance s + pnl (close_trade p (p_close d ! current_step s) (current_step s))"
    "current_position s' = None"
    "max_balance s' = max_balance s" "previous_balance s' = previous_balance s"
    "current_step s' = current_step s"
    "initial_balance cfg \<noteq> 0 \<Longrightarrow>
     v = Fin (pnl (close_trade p (p_close d ! current_step s) (current_step s)) / initial_balance cfg * 100
           * min 1 (real_of_int (hold_time (close_trade p (p_close d ! current_step s) (current_step s))) / 20))"
  using assms by (auto simp: close_position_def Let_def index_Inr_iff split: sum.splits)

lemma execute_trade_Inr:
  assumes "execute_trade cfg d dir sp s = Inr s'"
  shows "balance s' = balance s" "max_balance s' = max_balance s"
    "previous_balance s' = previous_balance s" "trades s' = trades s"
    "win_count s' = win_count s" "loss_count s' = loss_count s"
    "current_step s' = current_step s" "current_position s' \<noteq> None"
  using assms by (auto simp: execute_trade_def Let_def split: sum.splits if_splits)

lemma begin_step_simps [simp]:
  "balance (begin_step s) = balance s" "previous_balance (begin_step s) = balance s"
  "max_balance (begin_step s) = max (balance s) (max_balance s)"
  "current_step (begin_step s) = current_step s + 1"
  "trades (begin_step s) = trades s" "current_position (begin_step s) = current_position s"
  "win_count (begin_step s) = win_count s" "loss_count (begin_step s) = loss_count s"
  "metrics (begin_step s) = metrics s" "balance_np (begin_step s) = balance_np s"
  by (simp_all add: begin_step_def)

lemma close_position_peak:
  "close_position cfg d s = Inr (s', v) \<Longrightarrow>
   max_balance s' = max_balance s \<and> previous_balance s' = previous_balance s"
  by (auto simp: close_position_def Let_def split: option.splits sum.splits)

lemma auto_close_prev:
  "auto_close cfg d b s = Inr s' \<Longrightarrow>
   previous_balance s' = previous_balance s \<and> max_balance s' = max_balance s"
  by (auto simp: auto_close_def map_sum_fst_Inr dest: close_position_peak split: if_splits)

lemma apply_action_prev:
  "apply_action cfg d a sp s = Inr s' \<Longrightarrow>
   previous_balance s' = previous_balance s \<and> max_balance s' = max_balance s"
  by (auto simp: apply_action_def map_sum_fst_Inr
           dest: execute_trade_Inr(2,3) close_position_peak split: if_splits)

lemma step_reward_formula:
  assumes "step cfg d a s = Inr (s', out)" "initial_balance cfg \<noteq> 0"
  shows "step_reward out = Fin ((balance s' - balance s) / initial_balance cfg)"
    and "previous_balance s' = balance s" and "reward s' = step_reward out"
proof -
  from assms(1) obtain sp s2 s3 u dd s4 where
    A: "apply_action cfg d (process_action a) (sp * POINT_VALUE) (begin_step s) = Inr s2"
    and M: "manage_position d s2 = Inr (s3, u)"
    and C: "auto_close cfg d (is_done d s3 dd) s3 = Inr s4"
    and R: "calculate_reward cfg s4 u = Inr (step_reward out)"
    and G: "get_history cfg d (s4\<lparr>reward := step_reward out\<rparr>) = Inr (s', obs out)"
    by (rule step_InrE)
  have p4: "previous_balance s4 = balance s"
    using apply_action_prev[OF A] manage_position_Inr(3)[OF M] auto_close_prev[OF C] by simp
  have b: "balance s' = balance s4" using get_history_Inr(1)[OF G] by simp
  show "step_reward out = Fin ((balance s' - balance s) / initial_balance cfg)"
    using R p4 b assms(2) by (simp add: calculate_reward_nonzero)
  show "previous_balance s' = balance s" using get_history_Inr(3)[OF G] p4 by simp
  show "reward s' = step_reward out" using get_history_Inr(9)[OF G] by simp
qed

subsection \<open>When a step returns\<close>

lemma execute_trade_total:
  assumes "current_step s < length (p_close d)" "current_step s < length (p_atr d)"
    "BALANCE_PER_LOT cfg \<noteq> 0"
  shows "\<exists>s'. execute_trade cfg d dir sp s = Inr s'"
  using assms by (simp add: execute_trade_def index_def Let_def compute_lot_size_nonzero)

lemma close_position_total:
  assumes "current_step s < length (p_close d)"
  shows "\<exists>s' v. close_position cfg d s = Inr (s', v)"
  using assms by (simp add: close_position_def index_def Let_def split: option.splits)

lemma close_position_step:
  "close_position cfg d s = Inr (s', v) \<Longrightarrow> current_step s' = current_step s"
  by (auto simp: close_position_def Let_def split: option.splits sum.splits)

lemma apply_action_total:
  assumes "current_step s < length (p_close d)" "current_step s < length (p_atr d)"
    "BALANCE_PER_LOT cfg \<noteq> 0"
  shows "\<exists>s'. apply_action cfg d a sp s = Inr s'"
  using execute_trade_total[OF assms] close_position_total[OF assms(1), of cfg]
  by (auto simp: apply_action_def)

lemma apply_action_step:
  "apply_action cfg d a sp s = Inr s' \<Longrightarrow> current_step s' = current_step s"
  by (auto simp: apply_action_def map_sum_fst_Inr dest: execute_trade_Inr(7) close_position_step
           split: if_splits)

lemma manage_position_total:
  assumes "current_step s < length (p_close d)"
  shows "\<exists>s' u. manage_position d s = Inr (s', u)"
  using assms by (simp add: manage_position_def index_def split: option.splits)

lemma auto_close_total:
  assumes "current_step s < length (p_close d)"
  shows "\<exists>s'. auto_close cfg d b s = Inr s'"
  using close_position_total[OF assms, of cfg] by (auto simp: auto_close_def)

lemma auto_close_step: "auto_close cfg d b s = Inr s' \<Longrightarrow> current_step s' = current_step s"
  by (auto simp: auto_close_def map_sum_fst_Inr dest: close_position_step split: if_splits)

lemma get_history_total:
  assumes "current_step s < length (p_close d)" "current_step s < length (raw_data d)"
  shows "\<exists>s' ob. get_history cfg d s = Inr (s', ob)"
  using manage_position_total[OF assms(1)] assms(2)
  by (auto simp: get_history_def index_def)

text \<open>The peak balance that the terminal conditions of a step read.\<close>

lemma step_peak:
  assumes "apply_action cfg d a sp (begin_step s) = Inr s2" "manage_position d s2 = Inr (s3, u)"
  shows "max_balance s3 = max (balance s) (max_balance s)"
  using apply_action_prev[OF assms(1)] manage_position_Inr(2)[OF assms(2)] by simp

text \<open>A step on a state whose divisors are not zero returns as soon as its action does.\<close>

lemma step_total_of_action:
  assumes "wf_data d" "current_step s + 1 < data_length d"
    "0 < initial_balance cfg" "0 < max_balance s"
    "\<exists>s2. apply_action cfg d (process_action a)
            (p_spread d ! current_step s * POINT_VALUE) (begin_step s) = Inr s2"
  shows "\<exists>s' out. step cfg d a s = Inr (s', out)"
proof -
  have L: "current_step s < length (p_spread d)" "current_step s + 1 < length (p_close d)"
    "current_step s + 1 < length (raw_data d)"
    using assms by (simp_all add: wf_data_def data_length_def)
  from assms(5) obtain s2 where A: "apply_action cfg d (process_action a)
      (p_spread d ! current_step s * POINT_VALUE) (begin_step s) = Inr s2"
    by blast
  have c2: "current_step s2 = current_step s + 1" using apply_action_step[OF A] by simp
  obtain s3 u where M: "manage_position d s2 = Inr (s3, u)"
    using manage_position_total[of s2 d] L c2 by fastforce
  have c3: "current_step s3 = current_step s + 1" using manage_position_Inr(7)[OF M] c2 by simp
  have "max_balance s3 \<noteq> 0" using step_peak[OF A M] assms(4) by simp
  then obtain dd where D: "drawdown s3 = Inr dd" by (simp add: drawdown_nonzero)
  obtain s4 where C: "auto_close cfg d (is_done d s3 dd) s3 = Inr s4"
    using auto_close_total[of s3 d cfg] L c3 by fastforce
  have c4: "current_step s4 = current_step s + 1" using auto_close_step[OF C] c3 by simp
  obtain r where R: "calculate_reward cfg s4 u = Inr r"
    using assms(3) by (simp add: calculate_reward_nonzero)
  obtain s6 ob where G: "get_history cfg d (s4\<lparr>reward := r\<rparr>) = Inr (s6, ob)"
    using get_history_total[of "s4\<lparr>reward := r\<rparr>" d cfg] L c4 by fastforce
  show ?thesis
    using L A M D C R G by (simp add: step_def index_def Let_def)
qed

lemma step_total_close:
  assumes "wf_data d" "current_step s + 1 < data_length d"
    "0 < initial_balance cfg" "0 < max_balance s" "process_action a = 3"
  shows "\<exists>s' out. step cfg d a s = Inr (s', out)"
proof -
  have "current_step (begin_step s) < length (p_close d)"
    using assms(1,2) by (simp add: wf_data_def data_length_def)
  from close_position_total[OF this, of cfg]
  have "\<exists>s2. apply_action cfg d (process_action a)
            (p_spread d ! current_step s * POINT_VALUE) (begin_step s) = Inr s2"
    using assms(5) by (auto simp: apply_action_def)
  then show ?thesis by (rule step_total_of_action[OF assms(1-4)])
qed

lemma step_total:
  assumes "wf_data d" "current_step s + 1 < data_length d"
    "0 < initial_balance cfg" "BALANCE_PER_LOT cfg \<noteq> 0" "0 < max_balance s"
  shows "\<exists>s' out. step cfg d a s = Inr (s', out)"
proof -
  have "current_step (begin_step s) < length (p_close d)"
    "current_step (begin_step s) < length (p_atr d)"
    using assms(1,2) by (simp_all add: wf_data_def data_length_def)
  from apply_action_total[OF this assms(4)]
  have "\<exists>s2. apply_action cfg d (process_action a)
            (p_spread d ! current_step s * POINT_VALUE) (begin_step s) = Inr s2"
    by blast
  then show ?thesis by (rule step_total_of_action[OF assms(1,2,3,5)])
qed

lemma step_cursor: "step cfg d a s = Inr (s', out) \<Longrightarrow> current_step s' = current_step s + 1"
  by (erule step_InrE)
     (auto dest!: apply_action_step manage_position_Inr(7) auto_close_step get_history_Inr(7))

subsection \<open>Trades closed and balance moved by one step\<close>

lemma close_position_ledger:
  assumes "close_position cfg d s = Inr (s', v)"
  shows "\<exists>ts. trades s' = trades s @ ts \<and> balance s' = balance s + sum_list (map pnl ts) \<and>
           length ts = (if current_position s = None then 0 else 1)"
  using assms by (auto simp: close_position_def Let_def split: option.splits sum.splits)

lemma apply_action_ledger:
  assumes "apply_action cfg d a sp s = Inr s'"
  shows "\<exists>ts. trades s' = trades s @ ts \<and> balance s' = balance s + sum_list (map pnl ts) \<and>
           length ts = (if a = 3 \<and> current_position s \<noteq> None then 1 else 0)"
  using assms close_position_ledger[of cfg d s s']
  by (auto simp: apply_action_def map_sum_fst_Inr dest: execute_trade_Inr split: if_splits)

lemma apply_action_closed:
  assumes "apply_action cfg d a sp s = Inr s'" "a = 3"
  shows "current_position s' = None"
  using assms
  by (auto simp: apply_action_def map_sum_fst_Inr close_position_def Let_def
           split: option.splits sum.splits)

lemma auto_close_ledger:
  assumes "auto_close cfg d b s = Inr s'"
  shows "\<exists>ts. trades s' = trades s @ ts \<and> balance s' = balance s + sum_list (map pnl ts) \<and>
           length ts = (if b \<and> current_position s \<noteq> None then 1 else 0)"
  using assms close_position_ledger[of cfg d s s']
  by (auto simp: auto_close_def map_sum_fst_Inr split: if_splits)

lemma step_ledger:
  assumes "step cfg d a s = Inr (s', out)"
  shows "\<exists>ts. trades s' = trades s @ ts \<and> balance s' = balance s + sum_list (map pnl ts) \<and>
           length ts \<le> 1"
proof -
  from assms obtain sp s2 s3 u dd s4 where
    A: "apply_action cfg d (process_action a) (sp * POINT_VALUE) (begin_step s) = Inr s2"
    and M: "manage_position d s2 = Inr (s3, u)"
    and C: "auto_close cfg d (is_done d s3 dd) s3 = Inr s4"
    and G: "get_history cfg d (s4\<lparr>reward := step_reward out\<rparr>) = Inr (s', obs out)"
    by (rule step_InrE)
  from apply_action_ledger[OF A] obtain ts1 where
    t1: "trades s2 = trades s @ ts1" "balance s2 = balance s + sum_list (map pnl ts1)"
      "length ts1 = (if process_action a = 3 \<and> current_position s \<noteq> None then 1 else 0)"
    by auto
  from auto_close_ledger[OF C] obtain ts2 where
    t2: "trades s4 = trades s3 @ ts2" "balance s4 = balance s3 + sum_list (map pnl ts2)"
      "length ts2 = (if is_done d s3 dd \<and> current_position s3 \<noteq> None then 1 else 0)"
    by auto
  have n3: "process_action a = 3 \<Longrightarrow> current_position s3 = None"
    using apply_action_closed[OF A] manage_position_Inr(10)[OF M] by simp
  have "trades s' = trades s @ (ts1 @ ts2)"
    using get_history_Inr(4)[OF G] t2(1) manage_position_Inr(4)[OF M] t1(1) by simp
  moreover have "balance s' = balance s + sum_list (map pnl (ts1 @ ts2))"
    using get_history_Inr(1)[OF G] t2(2) manage_position_Inr(1)[OF M] t1(2) by simp
  moreover have "length (ts1 @ ts2) \<le> 1"
    using t1(3) t2(3) n3 by (auto split: if_splits)
  ultimately show ?thesis by blast
qed

lemma hold_scaled_differs:
  fixes h :: int and x i :: real
  assumes "x \<noteq> 0" "i \<noteq> 0"
  shows "x / i * 100 * min 1 (real_of_int h / 20) \<noteq> x / i"
proof
  assume "x / i * 100 * min 1 (real_of_int h / 20) = x / i"
  then have "100 * min 1 (real_of_int h / 20) = 1"
    using assms by (simp add: field_simps)
  then have "real_of_int h / 20 = 1 / 100"
    by (auto simp: min_def split: if_splits)
  then have "real_of_int (5 * h) = real_of_int 1" by simp
  then have "5 * h = 1" by (simp only: of_int_eq_iff)
  then show False by presburger
qed

lemma auto_close_done:
  assumes "auto_close cfg d True s = Inr s'"
  shows "current_position s' = None"
    and "\<forall>p. current_position s = Some p \<longrightarrow>
           trades s' = trades s @ [close_trade p (p_close d ! current_step s) (current_step s)] \<and>
           balance s' = balance s + pnl (close_trade p (p_close d ! current_step s) (current_step s))"
  using assms
  by (auto simp: auto_close_def map_sum_fst_Inr close_position_def Let_def index_Inr_iff
           split: option.splits sum.splits if_splits)


lemma manage_position_pos:
  assumes "manage_position d s = Inr (s', u)" "current_position s = Some p"
  shows "\<exists>p'. current_position s' = Some p' \<and> entry_price p' = entry_price p \<and>
           direction p' = direction p \<and> lot_size p' = lot_size p \<and> entry_step p' = entry_step p"
  using assms by (auto simp: manage_position_def split: sum.splits)


subsection \<open>Counters and reset\<close>

lemma close_position_counts:
  assumes "close_position cfg d s = Inr (s', v)" "win_count s + loss_count s = length (trades s)"
  shows "win_count s' + loss_count s' = length (trades s')"
  using assms by (auto simp: close_position_def Let_def split: option.splits sum.splits)

lemma step_counts:
  assumes "step cfg d a s = Inr (s', out)" "win_count s + loss_count s = length (trades s)"
  shows "win_count s' + loss_count s' = length (trades s')"
proof -
  from assms(1) obtain sp s2 s3 u dd s4 where
    A: "apply_action cfg d (process_action a) (sp * POINT_VALUE) (begin_step s) = Inr s2"
    and M: "manage_position d s2 = Inr (s3, u)"
    and C: "auto_close cfg d (is_done d s3 dd) s3 = Inr s4"
    and G: "get_history cfg d (s4\<lparr>reward := step_reward out\<rparr>) = Inr (s', obs out)"
    by (rule step_InrE)
  have "win_count s2 + loss_count s2 = length (trades s2)"
    using A assms(2) close_position_counts[of cfg d "begin_step s"]
      execute_trade_Inr(4,5,6)[of cfg d _ "sp * POINT_VALUE" "begin_step s" s2]
    by (auto simp: apply_action_def map_sum_fst_Inr split: if_splits)
  then have "win_count s3 + loss_count s3 = length (trades s3)"
    using manage_position_Inr[OF M] by simp
  then have "win_count s4 + loss_count s4 = length (trades s4)"
    using C close_position_counts[of cfg d s3]
    by (auto simp: auto_close_def map_sum_fst_Inr split: if_splits)
  then show ?thesis using get_history_Inr[OF G] by simp
qed

lemma reset_result:
  assumes "reset cfg d s (s', ob)"
  shows "win_count s' = 0" "loss_count s' = 0" "trades s' = []" "current_position s' = None"
    "balance s' = initial_balance cfg" "max_balance s' = initial_balance cfg"
    "metrics s' = zero_metrics"
proof -
  from assms obtain k where G: "get_history cfg d (reset_fields cfg k s) = Inr (s', ob)"
    by (auto elim: reset.cases)
  show "win_count s' = 0" "loss_count s' = 0" "trades s' = []" "current_position s' = None"
    "balance s' = initial_balance cfg" "max_balance s' = initial_balance cfg"
    "metrics s' = zero_metrics"
    using get_history_Inr[OF G] by (simp_all add: reset_fields_def)
qed

lemma nearest_cent_10: "nearest_cent 10 = 10"
  by (simp add: nearest_cent_def round_half_even_def)

subsection \<open>Two invariants of the reachable states\<close>

lemma close_position_consistent:
  assumes "close_position cfg d s = Inr (s', v)" "metrics_consistent s"
  shows "metrics_consistent s'"
  using assms
  by (auto simp: close_position_def Let_def metrics_consistent_def update_metrics_def
           split: option.splits sum.splits)

lemma reachable_metrics_consistent: "reachable cfg d s \<Longrightarrow> metrics_consistent s"
proof (induction rule: reachable.induct)
  case (reach_init cfg d)
  then show ?case by (simp add: metrics_consistent_def init_state_def zero_metrics_def)
next
  case (reach_reset cfg d s s' ob)
  then show ?case
    using reset_result[of cfg d s s' ob] by (simp add: metrics_consistent_def zero_metrics_def)
next
  case (reach_step cfg d s a s' out)
  from reach_step(2) obtain sp s2 s3 u dd s4 where
    A: "apply_action cfg d (process_action a) (sp * POINT_VALUE) (begin_step s) = Inr s2"
    and M: "manage_position d s2 = Inr (s3, u)"
    and C: "auto_close cfg d (is_done d s3 dd) s3 = Inr s4"
    and G: "get_history cfg d (s4\<lparr>reward := step_reward out\<rparr>) = Inr (s', obs out)"
    by (rule step_InrE)
  have b: "metrics_consistent (begin_step s)"
    using reach_step(3) by (simp add: metrics_consistent_def)
  have "metrics_consistent s2"
    using A b close_position_consistent[of cfg d "begin_step s"]
    by (auto simp: apply_action_def map_sum_fst_Inr execute_trade_def Let_def metrics_consistent_def
             split: if_splits sum.splits)
  then have "metrics_consistent s3"
    using manage_position_Inr[OF M] by (simp add: metrics_consistent_def)
  then have "metrics_consistent s4"
    using C close_position_consistent[of cfg d s3]
    by (auto simp: auto_close_def map_sum_fst_Inr split: if_splits)
  then show ?case using get_history_Inr[OF G] by (simp add: metrics_consistent_def)
qed

lemma reachable_peak_positive:
  assumes "reachable cfg d s" "0 < initial_balance cfg"
  shows "initial_balance cfg \<le> max_balance s"
  using assms
proof (induction rule: reachable.induct)
  case (reach_init cfg d)
  then show ?case by (simp add: init_state_def)
next
  case (reach_reset cfg d s s' ob)
  then show ?case using reset_result[of cfg d s s' ob] by simp
next
  case (reach_step cfg d s a s' out)
  from reach_step(2) obtain sp s2 s3 u dd s4 where
    A: "apply_action cfg d (process_action a) (sp * POINT_VALUE) (begin_step s) = Inr s2"
    and M: "manage_position d s2 = Inr (s3, u)"
    and C: "auto_close cfg d (is_done d s3 dd) s3 = Inr s4"
    and G: "get_history cfg d (s4\<lparr>reward := step_reward out\<rparr>) = Inr (s', obs out)"
    by (rule step_InrE)
  have "max_balance s' = max (balance s) (max_balance s)"
    using step_peak[OF A M] auto_close_prev[OF C] get_history_Inr(2)[OF G] by simp
  then show ?case using reach_step(3,4) by simp
qed

section \<open>Properties of the feature pipeline\<close>

subsection \<open>Shapes of the columns\<close>

lemma length_rolling_mean [simp]: "length (rolling_mean w xs) = length xs"
  by (simp add: rolling_mean_def)

lemma nth_rolling_mean:
  "i < length xs \<Longrightarrow>
   rolling_mean w xs ! i = (if i + 1 < w then None else Some (sum_list (window w xs i) / real w))"
  by (simp add: rolling_mean_def)

lemma length_diff [simp]: "length (diff xs) = length xs - 1"
  by (simp add: diff_def)

lemma length_delta [simp]: "length (delta bars) = length bars"
  by (cases bars) (simp_all add: delta_def)

lemma length_gain [simp]: "length (gain bars) = length bars"
  by (simp add: gain_def)

lemma length_loss [simp]: "length (loss bars) = length bars"
  by (simp add: loss_def)

lemma length_rs [simp]: "length (rs bars) = length bars"
  by (simp add: rs_def)

lemma nth_rs:
  "i < length bars \<Longrightarrow>
   rs bars ! i = (case loss bars ! i of None \<Rightarrow> None
                  | Some lv \<Rightarrow> if lv \<noteq> 0 then map_option (\<lambda>gv. gv / lv) (gain bars ! i) else Some 0)"
  by (simp add: rs_def)

lemma nth_rsi: "i < length bars \<Longrightarrow> rsi bars ! i = map_option (\<lambda>r. 100 - 100 / (1 + r)) (rs bars ! i)"
  by (simp add: rsi_def)

lemma nth_rsi_norm: "i < length bars \<Longrightarrow> rsi_norm bars ! i = map_option (\<lambda>r. r / 50 - 1) (rsi bars ! i)"
  by (simp add: rsi_norm_def rsi_def)

lemma diff_replicate: "diff (replicate n c) = replicate (n - 1) 0"
  by (rule nth_equalityI) (simp_all add: diff_def)

lemma delta_replicate: "delta (replicate n b) = replicate n 0"
proof (cases "n = 0")
  case True
  then show ?thesis by (simp add: delta_def)
next
  case False
  then have "delta (replicate n b) = 0 # diff (replicate n (b_close b))"
    by (simp add: delta_def)
  also have "\<dots> = 0 # replicate (n - 1) 0" by (simp only: diff_replicate)
  also have "\<dots> = replicate n 0" using False by (cases n) simp_all
  finally show ?thesis .
qed

lemma sum_list_zeros: "(\<And>x. x \<in> set xs \<Longrightarrow> x = 0) \<Longrightarrow> sum_list xs = (0::real)"
  by (induction xs) auto

lemma set_window: "set (window w xs i) \<subseteq> set xs"
  unfolding window_def by (meson set_drop_subset set_take_subset subset_trans)

lemma rolling_mean_zeros:
  "i < n \<Longrightarrow> rolling_mean w (replicate n 0) ! i = (if i + 1 < w then None else Some 0)"
proof -
  assume "i < n"
  have "sum_list (window w (replicate n 0) i) = (0::real)"
    by (rule sum_list_zeros) (use set_window[of w "replicate n 0" i] in auto)
  then show ?thesis using \<open>i < n\<close> by (simp add: nth_rolling_mean)
qed

lemma loss_flat: "i < n \<Longrightarrow> loss (replicate n b) ! i = (if i + 1 < 14 then None else Some 0)"
  by (simp add: loss_def delta_replicate rolling_mean_zeros)

lemma gain_flat: "i < n \<Longrightarrow> gain (replicate n b) ! i = (if i + 1 < 14 then None else Some 0)"
  by (simp add: gain_def delta_replicate rolling_mean_zeros)

subsection \<open>Where NaN can stand\<close>

lemma length_tr [simp]: "length (tr bars) = length bars"
  by (simp add: tr_def Let_def)

lemma length_atr [simp]: "length (atr bars) = length bars"
  by (simp add: atr_def)

lemma nth_atr_None: "i < length bars \<Longrightarrow> (atr bars ! i = None) = (i < 13)"
  by (auto simp: atr_def nth_rolling_mean)

lemma nth_loss_None: "i < length bars \<Longrightarrow> (loss bars ! i = None) = (i < 13)"
  by (auto simp: loss_def nth_rolling_mean)

lemma nth_gain_None: "i < length bars \<Longrightarrow> (gain bars ! i = None) = (i < 13)"
  by (auto simp: gain_def nth_rolling_mean)

lemma nth_rsi_norm_None: "i < length bars \<Longrightarrow> (rsi_norm bars ! i = None) = (i < 13)"
  using nth_loss_None[of i bars] nth_gain_None[of i bars]
  by (auto simp: nth_rsi_norm nth_rsi nth_rs split: option.splits)

lemma length_returns [simp]: "bars \<noteq> [] \<Longrightarrow> length (returns bars) = length bars"
  by (cases bars) (simp_all add: returns_def Let_def)

lemma fclip_Fin_iff: "fclip lo hi x \<noteq> NaN \<longleftrightarrow> x \<noteq> NaN"
  by (cases x) simp_all

lemma nth_returns_not_NaN:
  assumes "i < length bars" "\<forall>b\<in>set bars. b_close b \<noteq> 0"
  shows "returns bars ! i \<noteq> NaN"
proof (cases i)
  case 0
  then show ?thesis using assms by (simp add: returns_def Let_def)
next
  case (Suc j)
  then have j: "j < length bars - 1" "j < length bars" using assms(1) by simp_all
  then have "b_close (bars ! j) \<noteq> 0" using assms(2) by simp
  then show ?thesis using Suc j by (simp add: returns_def Let_def fclip_Fin_iff)
qed

lemma length_candle [simp]: "length (candle_pattern bars) = length bars"
  by (simp add: candle_pattern_def)

lemma eps8_pos: "0 < eps8"
  by (simp add: eps8_def)

lemma nth_candle_not_NaN:
  assumes "i < length bars" "wf_bar (bars ! i)"
  shows "candle_pattern bars ! i \<noteq> NaN"
proof -
  let ?b = "bars ! i"
  have r: "b_high ?b - b_low ?b + eps8 \<noteq> 0"
    using assms(2) eps8_pos by (simp add: wf_bar_def)
  have w: "b_high ?b - max (b_close ?b) (b_open ?b) + (min (b_close ?b) (b_open ?b) - b_low ?b) + eps8 \<noteq> 0"
    using assms(2) eps8_pos by (auto simp: wf_bar_def max_def min_def split: if_splits)
  show ?thesis using assms(1) r w
    by (simp add: candle_pattern_def Let_def fclip_Fin_iff)
qed

lemma length_atr_close [simp]: "length (atr_close bars) = length bars"
  by (simp add: atr_close_def)

lemma nth_atr_close:
  "i < length bars \<Longrightarrow> atr_close bars ! i = fdiv (of_opt (atr bars ! i)) (Fin (b_close (bars ! i)))"
  by (simp add: atr_close_def)

lemma atr_close_shape:
  assumes "\<forall>b\<in>set bars. b_close b \<noteq> 0"
  shows "\<forall>x\<in>set (atr_close bars). x = NaN \<or> (\<exists>r. x = Fin r)"
proof
  fix x assume "x \<in> set (atr_close bars)"
  then obtain i where i: "i < length bars" "x = atr_close bars ! i"
    by (auto simp: in_set_conv_nth)
  have "b_close (bars ! i) \<noteq> 0" using assms i(1) by simp
  then show "x = NaN \<or> (\<exists>r. x = Fin r)"
    using i by (cases "atr bars ! i") (simp_all add: nth_atr_close of_opt_def)
qed

lemma foldl_min_Fin:
  assumes "\<forall>x\<in>set ys. \<exists>r. x = Fin r"
  shows "\<exists>m. foldl (\<lambda>m x. if fle x m then x else m) (Fin a) ys = Fin m \<and> m \<le> a"
  using assms
proof (induction ys arbitrary: a)
  case Nil
  then show ?case by simp
next
  case (Cons y ys)
  then obtain r where r: "y = Fin r" by auto
  from Cons have ih: "\<And>b. \<exists>m. foldl (\<lambda>m x. if fle x m then x else m) (Fin b) ys = Fin m \<and> m \<le> b"
    by simp
  show ?case
  proof (cases "r \<le> a")
    case True
    with ih[of r] r show ?thesis by auto
  next
    case False
    with ih[of a] r show ?thesis by auto
  qed
qed

lemma foldl_max_Fin:
  assumes "\<forall>x\<in>set ys. \<exists>r. x = Fin r"
  shows "\<exists>m. foldl (\<lambda>m x. if fle m x then x else m) (Fin a) ys = Fin m \<and> a \<le> m"
  using assms
proof (induction ys arbitrary: a)
  case Nil
  then show ?case by simp
next
  case (Cons y ys)
  then obtain r where r: "y = Fin r" by auto
  from Cons have ih: "\<And>b. \<exists>m. foldl (\<lambda>m x. if fle m x then x else m) (Fin b) ys = Fin m \<and> b \<le> m"
    by simp
  show ?case
  proof (cases "a \<le> r")
    case True
    with ih[of r] r show ?thesis by auto
  next
    case False
    with ih[of a] r show ?thesis by auto
  qed
qed

lemma nanmin_nanmax_Fin:
  assumes "\<forall>x\<in>set xs. x = NaN \<or> (\<exists>r. x = Fin r)" "Fin r0 \<in> set xs"
  shows "\<exists>m M. nanmin xs = Fin m \<and> nanmax xs = Fin M \<and> m \<le> M"
proof -
  have ne: "nan_free xs \<noteq> []" using assms(2) by (auto simp: nan_free_def filter_empty_conv)
  then obtain y ys where ys: "nan_free xs = y # ys" by (cases "nan_free xs") auto
  have all: "\<forall>x\<in>set (y # ys). \<exists>r. x = Fin r"
    using assms(1) unfolding ys[symmetric] nan_free_def by auto
  then obtain a where a: "y = Fin a" by auto
  from all have rest: "\<forall>x\<in>set ys. \<exists>r. x = Fin r" by simp
  from foldl_min_Fin[OF rest, of a] obtain m where
    m: "foldl (\<lambda>m x. if fle x m then x else m) (Fin a) ys = Fin m" "m \<le> a" by blast
  from foldl_max_Fin[OF rest, of a] obtain M where
    M: "foldl (\<lambda>m x. if fle m x then x else m) (Fin a) ys = Fin M" "a \<le> M" by blast
  show ?thesis using m M ys a by (auto simp: nanmin_def nanmax_def)
qed

lemma length_atr_norm [simp]: "length (atr_norm bars) = length bars"
  by (simp add: atr_norm_def Let_def)

lemma nth_atr_norm_not_NaN:
  assumes "i < length bars" "13 \<le> i" "\<forall>b\<in>set bars. b_close b \<noteq> 0"
  shows "atr_norm bars ! i \<noteq> NaN"
proof -
  obtain a where a: "atr bars ! i = Some a"
    using nth_atr_None[OF assms(1)] assms(2) by (cases "atr bars ! i") auto
  have c: "b_close (bars ! i) \<noteq> 0" using assms(1,3) by simp
  then have x: "atr_close bars ! i = Fin (a / b_close (bars ! i))"
    using assms(1) a by (simp add: nth_atr_close of_opt_def)
  then have "Fin (a / b_close (bars ! i)) \<in> set (atr_close bars)"
    using assms(1) by (metis length_atr_close nth_mem)
  from nanmin_nanmax_Fin[OF atr_close_shape[OF assms(3)] this] obtain m M where
    mM: "nanmin (atr_close bars) = Fin m" "nanmax (atr_close bars) = Fin M" "m \<le> M" by blast
  have "M - m + eps8 \<noteq> 0" using mM(3) eps8_pos by simp
  then show ?thesis using assms(1) x mM
    by (simp add: atr_norm_def Let_def fsub_def)
qed

subsection \<open>Dropping and trimming\<close>

lemma length_rolling_mean_min1 [simp]: "length (rolling_mean_min1 w xs) = length xs"
  by (simp add: rolling_mean_min1_def)

lemma length_rolling_std_min1 [simp]: "length (rolling_std_min1 w xs) = length xs"
  by (simp add: rolling_std_min1_def)

lemma length_fillna [simp]: "length (fillna c xs) = length xs"
  by (simp add: fillna_def)

lemma length_pdm [simp]: "bars \<noteq> [] \<Longrightarrow> length (pdm bars) = length bars"
  by (cases bars) (simp_all add: pdm_def)

lemma length_ndm [simp]: "bars \<noteq> [] \<Longrightarrow> length (ndm bars) = length bars"
  by (cases bars) (simp_all add: ndm_def)

lemma length_trend_strength [simp]: "bars \<noteq> [] \<Longrightarrow> length (trend_strength bars) = length bars"
  by (simp add: trend_strength_def adx_def dx_def sum_di_def pdi_def ndi_def pdm_smooth_def
        ndm_smooth_def atr_safe_def)

lemma length_volatility_breakout [simp]: "length (volatility_breakout bars) = length bars"
  by (simp add: volatility_breakout_def band_range_def upper_band_def lower_band_def ma20_def
        boll_std_def)

lemma length_rsi_norm [simp]: "length (rsi_norm bars) = length bars"
  by (simp add: rsi_norm_def rsi_def)

lemma length_features_df [simp]: "length (features_df bars) = length bars"
  by (simp add: features_df_def)

lemma lookback_20: "lookback = 20"
  by (simp add: lookback_def)

lemma filter_ge_upt: "filter (\<lambda>i. k \<le> i) [0..<n] = [k..<n]"
proof (induction n)
  case 0
  then show ?case by simp
next
  case (Suc n)
  then show ?case by (cases "k \<le> n") (simp_all add: upt_Suc_append not_le)
qed

lemma row_NaN_iff:
  assumes "i < length bars" "\<forall>b\<in>set bars. wf_bar b"
  shows "NaN \<in> set (snd (features_df bars ! i)) \<longleftrightarrow> i < 13"
proof (cases "i < 13")
  case True
  then have "rsi_norm bars ! i = None" using nth_rsi_norm_None[OF assms(1)] by simp
  then show ?thesis using True assms(1) by (simp add: features_df_def of_opt_def)
next
  case False
  then have i: "13 \<le> i" by simp
  have c: "\<forall>b\<in>set bars. b_close b \<noteq> 0" using assms(2) by (auto simp: wf_bar_def)
  obtain r where r: "rsi_norm bars ! i = Some r"
    using nth_rsi_norm_None[OF assms(1)] False by (cases "rsi_norm bars ! i") auto
  have "wf_bar (bars ! i)" using assms by simp
  then show ?thesis
    using False assms(1) r nth_returns_not_NaN[OF assms(1) c] nth_atr_norm_not_NaN[OF assms(1) i c]
      nth_candle_not_NaN[OF assms(1)]
    by (auto simp: features_df_def of_opt_def)
qed

lemma dropna_wf_bars:
  assumes "\<forall>b\<in>set bars. wf_bar b"
  shows "dropna (features_df bars) = map (\<lambda>i. features_df bars ! i) [13..<length bars]"
proof -
  have fd: "features_df bars = map (\<lambda>i. features_df bars ! i) [0..<length bars]"
    using map_nth[of "features_df bars"] by simp
  have fst_i: "fst (features_df bars ! i) = i" if "i < length bars" for i
    using that by (simp add: features_df_def)
  have "dropna (features_df bars) =
          filter (\<lambda>(i, r). NaN \<notin> set r) (map (\<lambda>i. features_df bars ! i) [0..<length bars])"
    using fd by (simp add: dropna_def)
  also have "\<dots> = map (\<lambda>i. features_df bars ! i)
                     (filter (\<lambda>i. NaN \<notin> set (snd (features_df bars ! i))) [0..<length bars])"
    by (simp add: filter_map comp_def case_prod_unfold)
  also have "filter (\<lambda>i. NaN \<notin> set (snd (features_df bars ! i))) [0..<length bars] =
             filter (\<lambda>i. 13 \<le> i) [0..<length bars]"
    by (rule filter_cong) (use row_NaN_iff[OF _ assms] in auto)
  finally show ?thesis by (simp add: filter_ge_upt)
qed

lemma kept_wf_bars:
  assumes "\<forall>b\<in>set bars. wf_bar b"
  shows "drop lookback (dropna (features_df bars)) =
           map (\<lambda>i. features_df bars ! i) [33..<length bars]"
  by (simp add: dropna_wf_bars[OF assms] lookback_20 drop_map)

lemma preprocess_wf_bars:
  assumes "\<forall>b\<in>set bars. wf_bar b" "bars \<noteq> []"
  shows "preprocess_data bars =
           (if length bars < 133 then Inl (InsufficientData (length bars - 33))
            else Inr \<lparr> p_close = map (\<lambda>i. b_close (bars ! i)) [33..<length bars],
                       p_high = map (\<lambda>i. b_high (bars ! i)) [33..<length bars],
                       p_low = map (\<lambda>i. b_low (bars ! i)) [33..<length bars],
                       p_spread = map (\<lambda>i. b_spread (bars ! i)) [33..<length bars],
                       p_atr = map (\<lambda>i. of_opt (atr bars ! i)) [33..<length bars],
                       raw_data = map (\<lambda>i. snd (features_df bars ! i)) [33..<length bars] \<rparr>)"
proof -
  have fst_i: "fst (features_df bars ! i) = i" if "i < length bars" for i
    using that by (simp add: features_df_def)
  have m: "map (\<lambda>p. f (fst p)) (map (\<lambda>i. features_df bars ! i) [33..<length bars]) =
           map f [33..<length bars]" for f :: "nat \<Rightarrow> 'b"
    using fst_i by simp
  have l: "length bars - 33 < 100 \<longleftrightarrow> length bars < 133" by auto
  show ?thesis
    using assms(2)
    by (auto simp add: preprocess_data_def Let_def kept_wf_bars[OF assms(1)] case_prod_unfold l
          fst_i)
qed

subsection \<open>The flat market\<close>

text \<open>The table of \<open>n\<close> flat bars is preprocessed to \<open>flat_data (n - 33) sp\<close>: every indicator
  is computed below, column by column.\<close>

lemma flat_bar_simps [simp]:
  "b_open (flat_bar sp) = 1" "b_high (flat_bar sp) = 1" "b_low (flat_bar sp) = 1"
  "b_close (flat_bar sp) = 1" "b_spread (flat_bar sp) = sp"
  by (simp_all add: flat_bar_def)

lemma roll1_replicate: "roll1 (replicate n c) = replicate n c"
proof (cases n)
  case 0
  then show ?thesis by (simp add: roll1_def)
next
  case (Suc m)
  have "butlast (replicate (Suc m) c) = replicate m c"
    by (simp add: butlast_conv_take del: replicate_Suc)
  then have "roll1 (replicate (Suc m) c) = c # replicate m c"
    by (simp add: roll1_def del: replicate_Suc)
  then show ?thesis using Suc by simp
qed

lemma tr_flat: "tr (replicate n (flat_bar sp)) = replicate n 0"
  by (rule nth_equalityI)
     (simp_all add: tr_def Let_def roll1_replicate nth_list_update)

lemma atr_flat:
  "i < n \<Longrightarrow> atr (replicate n (flat_bar sp)) ! i = (if i + 1 < 14 then None else Some 0)"
  by (simp add: atr_def tr_flat rolling_mean_zeros)

lemma returns_flat: "i < n \<Longrightarrow> returns (replicate n (flat_bar sp)) ! i = Fin 0"
  by (cases i) (simp_all add: returns_def Let_def diff_replicate clip_def)

lemma rsi_norm_flat:
  "i < n \<Longrightarrow> 13 \<le> i \<Longrightarrow> rsi_norm (replicate n (flat_bar sp)) ! i = Some (- 1)"
  by (simp add: nth_rsi_norm nth_rsi nth_rs loss_flat)

lemma atr_close_flat:
  "i < n \<Longrightarrow> atr_close (replicate n (flat_bar sp)) ! i = (if i < 13 then NaN else Fin 0)"
  by (simp add: nth_atr_close atr_flat of_opt_def)

lemma foldl_const:
  assumes "\<forall>x\<in>set ys. x = Fin c"
  shows "foldl (\<lambda>m x. if fle x m then x else m) (Fin c) ys = Fin c"
    and "foldl (\<lambda>m x. if fle m x then x else m) (Fin c) ys = Fin c"
  using assms by (induction ys) simp_all

lemma nan_extrema_const:
  assumes "\<forall>x\<in>set xs. x = NaN \<or> x = Fin c" "Fin c \<in> set xs"
  shows "nanmin xs = Fin c" "nanmax xs = Fin c"
proof -
  have ne: "nan_free xs \<noteq> []" using assms(2) by (auto simp: nan_free_def filter_empty_conv)
  then obtain y ys where ys: "nan_free xs = y # ys" by (cases "nan_free xs") auto
  have all: "\<forall>x\<in>set (y # ys). x = Fin c"
    using assms(1) unfolding ys[symmetric] nan_free_def by auto
  then have "y = Fin c" "\<forall>x\<in>set ys. x = Fin c" by simp_all
  then show "nanmin xs = Fin c" "nanmax xs = Fin c"
    using ys foldl_const[of ys c] by (simp_all add: nanmin_def nanmax_def)
qed

lemma atr_norm_flat:
  assumes "i < n" "13 \<le> i"
  shows "atr_norm (replicate n (flat_bar sp)) ! i = Fin (- 1)"
proof -
  let ?r = "atr_close (replicate n (flat_bar sp))"
  have a: "\<forall>x\<in>set ?r. x = NaN \<or> x = Fin 0"
    by (auto simp: in_set_conv_nth atr_close_flat split: if_splits)
  have "?r ! i = Fin 0" using assms by (simp add: atr_close_flat)
  then have b: "Fin 0 \<in> set ?r" using assms(1) by (metis length_atr_close length_replicate nth_mem)
  have "nanmin ?r = Fin 0" "nanmax ?r = Fin 0" using nan_extrema_const[OF a b] by simp_all
  then show ?thesis using assms \<open>?r ! i = Fin 0\<close> eps8_pos
    by (simp add: atr_norm_def Let_def fsub_def)
qed

lemma candle_flat: "i < n \<Longrightarrow> candle_pattern (replicate n (flat_bar sp)) ! i = Fin 0"
  using eps8_pos by (simp add: candle_pattern_def Let_def clip_def)

lemma window_replicate: "window w (replicate n c) i = replicate (min n (i + 1) - (i + 1 - w)) c"
  by (simp add: window_def)

lemma valid_replicate: "valid (replicate k (Some c)) = replicate k c"
  by (simp add: valid_def)

lemma nth_rolling_mean_min1:
  "i < length xs \<Longrightarrow>
   rolling_mean_min1 w xs ! i =
     (let v = valid (window w xs i) in if v = [] then None else Some (sum_list v / real (length v)))"
  by (simp add: rolling_mean_min1_def)

lemma nth_rolling_std_min1:
  "i < length xs \<Longrightarrow>
   rolling_std_min1 w xs ! i =
     (let v = valid (window w xs i) in if length v < 2 then None else Some (sample_std v))"
  by (simp add: rolling_std_min1_def)

lemma nth_fillna: "i < length xs \<Longrightarrow> fillna c xs ! i = (case xs ! i of None \<Rightarrow> c | Some a \<Rightarrow> a)"
  by (simp add: fillna_def)

lemma sample_std_replicate: "sample_std (replicate k c) = 0"
  by (cases "k = 0") (simp_all add: sample_std_def Let_def sum_list_replicate)

lemma rolling_const_mean:
  assumes "i < n" "0 < w"
  shows "fillna d (rolling_mean_min1 w (replicate n (Some c))) ! i = c"
proof -
  have "0 < min n (i + 1) - (i + 1 - w)" using assms by auto
  then show ?thesis using assms(1)
    by (simp add: nth_fillna nth_rolling_mean_min1 window_replicate valid_replicate Let_def
          sum_list_replicate)
qed

lemma rolling_const_std:
  assumes "i < n"
  shows "fillna 0 (rolling_std_min1 w (replicate n (Some c))) ! i = 0"
  using assms
  by (simp add: nth_fillna nth_rolling_std_min1 window_replicate valid_replicate Let_def
        sample_std_replicate)

lemma closes_flat: "map (Some \<circ> b_close) (replicate n (flat_bar sp)) = replicate n (Some 1)"
  by simp

lemma volatility_breakout_flat:
  assumes "i < n"
  shows "volatility_breakout (replicate n (flat_bar sp)) ! i = 0"
  using assms eps8_pos
  by (simp add: volatility_breakout_def band_range_def upper_band_def lower_band_def ma20_def
        boll_std_def rolling_const_mean rolling_const_std clip_def)

lemma valid_zero_sum:
  assumes "\<forall>x\<in>set xs. x = None \<or> x = Some 0"
  shows "sum_list (valid (window w xs i)) = 0"
proof (rule sum_list_zeros)
  fix x assume "x \<in> set (valid (window w xs i))"
  then obtain y where "y \<in> set (window w xs i)" "y \<noteq> None" "x = the y"
    by (auto simp: valid_def)
  moreover have "y \<in> set xs" using calculation(1) set_window by fastforce
  ultimately show "x = 0" using assms by auto
qed

lemma rolling_zero_mean:
  assumes "\<forall>x\<in>set xs. x = None \<or> x = Some 0" "i < length xs"
  shows "fillna 0 (rolling_mean_min1 w xs) ! i = 0"
  using assms(2) valid_zero_sum[OF assms(1)]
  by (simp add: nth_fillna nth_rolling_mean_min1 Let_def)

lemma pdm_flat: "0 < n \<Longrightarrow> pdm (replicate n (flat_bar sp)) = replicate n 0"
  by (cases n) (simp_all add: pdm_def diff_replicate del: replicate_Suc, simp)

lemma ndm_flat: "0 < n \<Longrightarrow> ndm (replicate n (flat_bar sp)) = replicate n 0"
  by (cases n) (simp_all add: ndm_def diff_replicate del: replicate_Suc, simp)

lemma pdm_smooth_flat: "i < n \<Longrightarrow> pdm_smooth (replicate n (flat_bar sp)) ! i = 0"
  by (simp add: pdm_smooth_def pdm_flat rolling_const_mean)

lemma ndm_smooth_flat: "i < n \<Longrightarrow> ndm_smooth (replicate n (flat_bar sp)) ! i = 0"
  by (simp add: ndm_smooth_def ndm_flat rolling_const_mean)

lemma length_pdm_smooth [simp]: "bars \<noteq> [] \<Longrightarrow> length (pdm_smooth bars) = length bars"
  by (simp add: pdm_smooth_def)

lemma length_ndm_smooth [simp]: "bars \<noteq> [] \<Longrightarrow> length (ndm_smooth bars) = length bars"
  by (simp add: ndm_smooth_def)

lemma length_atr_safe [simp]: "length (atr_safe bars) = length bars"
  by (simp add: atr_safe_def)

lemma length_pdi [simp]: "bars \<noteq> [] \<Longrightarrow> length (pdi bars) = length bars"
  by (simp add: pdi_def)

lemma length_ndi [simp]: "bars \<noteq> [] \<Longrightarrow> length (ndi bars) = length bars"
  by (simp add: ndi_def)

lemma length_sum_di [simp]: "bars \<noteq> [] \<Longrightarrow> length (sum_di bars) = length bars"
  by (simp add: sum_di_def)

lemma length_dx [simp]: "bars \<noteq> [] \<Longrightarrow> length (dx bars) = length bars"
  by (simp add: dx_def)

lemma atr_safe_flat:
  "i < n \<Longrightarrow> atr_safe (replicate n (flat_bar sp)) ! i = (if i < 13 then None else Some eps8)"
  using eps8_pos by (simp add: atr_safe_def atr_flat)

lemma pdi_flat:
  "i < n \<Longrightarrow> pdi (replicate n (flat_bar sp)) ! i = (if i < 13 then None else Some 0)"
  by (simp add: pdi_def atr_safe_flat pdm_smooth_flat)

lemma ndi_flat:
  "i < n \<Longrightarrow> ndi (replicate n (flat_bar sp)) ! i = (if i < 13 then None else Some 0)"
  by (simp add: ndi_def atr_safe_flat ndm_smooth_flat)

lemma sum_di_flat:
  "i < n \<Longrightarrow> sum_di (replicate n (flat_bar sp)) ! i = (if i < 13 then None else Some eps8)"
  using eps8_pos by (simp add: sum_di_def pdi_flat ndi_flat lift2_def)

lemma dx_flat:
  "i < n \<Longrightarrow> dx (replicate n (flat_bar sp)) ! i = (if i < 13 then None else Some 0)"
  by (simp add: dx_def pdi_flat ndi_flat sum_di_flat lift2_def)

lemma trend_strength_flat:
  assumes "i < n"
  shows "trend_strength (replicate n (flat_bar sp)) ! i = - 1"
proof -
  let ?bars = "replicate n (flat_bar sp)"
  have ne: "?bars \<noteq> []" using assms by auto
  have a: "\<forall>x\<in>set (dx ?bars). x = None \<or> x = Some 0"
    using ne by (auto simp: in_set_conv_nth dx_flat split: if_splits)
  have "adx ?bars ! i = 0"
    unfolding adx_def using rolling_zero_mean[OF a] assms ne by simp
  moreover have "i < length (adx ?bars)" using assms ne by (simp add: adx_def)
  ultimately show ?thesis by (simp add: trend_strength_def clip_def)
qed

lemma features_flat:
  assumes "i < n" "13 \<le> i"
  shows "features_df (replicate n (flat_bar sp)) ! i = (i, flat_row)"
  using assms
  by (simp add: features_df_def flat_row_def returns_flat rsi_norm_flat atr_norm_flat
        volatility_breakout_flat trend_strength_flat candle_flat of_opt_def)

lemma preprocess_flat:
  assumes "133 \<le> n"
  shows "preprocess_data (replicate n (flat_bar sp)) = Inr (flat_data (n - 33) sp)"
proof -
  have w: "\<forall>b\<in>set (replicate n (flat_bar sp)). wf_bar b" by (simp add: wf_bar_def)
  have ne: "replicate n (flat_bar sp) \<noteq> []" using assms by auto
  have c: "map (\<lambda>i. f i) [33..<n] = replicate (n - 33) c" if "\<And>i. 33 \<le> i \<Longrightarrow> i < n \<Longrightarrow> f i = c"
    for f :: "nat \<Rightarrow> 'b" and c
    by (rule nth_equalityI) (simp_all add: that)
  show ?thesis
    using assms
    by (simp add: preprocess_wf_bars[OF w ne] flat_data_def c atr_flat features_flat of_opt_def)
qed

subsection \<open>The oscillator where no loss occurred\<close>

text \<open>Where the 14-period average of the negative deltas is exactly zero, the ratio keeps
  the zero it was initialised with, and the oscillator computed from it is \<open>0\<close>.\<close>

lemma rsi_at_zero_loss:
  assumes "i < length bars" "loss bars ! i = Some 0"
  shows "rs bars ! i = Some 0 \<and> rsi bars ! i = Some 0 \<and> rsi_norm bars ! i = Some (- 1)"
  using assms by (simp add: nth_rs nth_rsi nth_rsi_norm)

subsection \<open>The rising market\<close>

lemma length_rising_bars [simp]: "length (rising_bars n) = n"
  by (simp add: rising_bars_def)

lemma rising_bars_wf: "\<forall>b\<in>set (rising_bars n). wf_bar b"
  by (auto simp: rising_bars_def rising_bar_def wf_bar_def)

lemma delta_rising: "delta (rising_bars n) = (if n = 0 then [] else 0 # replicate (n - 1) 1)"
proof (cases "n = 0")
  case True
  then show ?thesis by (simp add: delta_def rising_bars_def)
next
  case False
  have "diff (map b_close (rising_bars n)) = replicate (n - 1) 1"
    by (rule nth_equalityI) (simp_all add: diff_def rising_bars_def rising_bar_def)
  then show ?thesis using False by (simp add: delta_def rising_bars_def)
qed

lemma loss_rising:
  assumes "i < n"
  shows "loss (rising_bars n) ! i = (if i + 1 < 14 then None else Some 0)"
proof -
  have "map (\<lambda>x. if x < 0 then - x else 0) (delta (rising_bars n)) = replicate n (0::real)"
    using assms by (cases n) (simp_all add: delta_rising)
  then show ?thesis using assms by (simp add: loss_def rolling_mean_zeros)
qed

lemma gain_rising:
  assumes "14 \<le> i" "i < n"
  shows "gain (rising_bars n) ! i = Some 1"
proof -
  have g: "map (\<lambda>x. if 0 < x then x else 0) (delta (rising_bars n)) = 0 # replicate (n - 1) (1::real)"
    using assms by (cases n) (simp_all add: delta_rising)
  have "window 14 (0 # replicate (n - 1) (1::real)) i = replicate 14 1"
    using assms by (intro nth_equalityI) (auto simp: window_def nth_Cons')
  then show ?thesis using assms by (simp add: gain_def g nth_rolling_mean sum_list_replicate)
qed

text \<open>The oscillator feature of an observation row is that of the bar 33 rows further
  into the table.\<close>

lemma preprocess_row_rsi:
  assumes "\<forall>b\<in>set bars. wf_bar b" "133 \<le> length bars" "k < length bars - 33"
  shows "map_sum id (\<lambda>d. (data_length d, raw_data d ! k ! 1)) (preprocess_data bars) =
           Inr (length bars - 33, of_opt (rsi_norm bars ! (33 + k)))"
proof -
  have ne: "bars \<noteq> []" using assms(2) by auto
  have k: "33 + k < length bars" using assms(2,3) by arith
  from preprocess_wf_bars[OF assms(1) ne] show ?thesis
    using assms(2,3) k by (simp add: data_length_def features_df_def)
qed

section \<open>The concrete inputs\<close>

lemmas sm_defs = step_def begin_step_def apply_action_def process_action_def execute_trade_def
  close_position_def manage_position_def auto_close_def get_history_def calculate_reward_def
  is_done_def end_of_data_def drawdown_def num_div_def data_length_def index_def
  compute_lot_size_def close_trade_def profit_points_of_def update_metrics_def
  winning_trades_def losing_trades_def position_info_of_def clip_def
  POINT_VALUE_def PIP_VALUE_def MIN_LOTS_def MAX_LOTS_def MAX_DRAWDOWN_def

lemmas ex_defs = flat_data_def flat_row_def default_cfg_def random_cfg_def init_state_def
  zero_metrics_def bought_pos_def bought_state_def nearest_cent_10

lemma flat_data_wf: "wf_data (flat_data n sp)"
  by (simp add: wf_data_def flat_data_def data_length_def)

lemma flat_data_length: "data_length (flat_data n sp) = n"
  by (simp add: flat_data_def data_length_def)

lemma rise_data_wf: "wf_data rise_data"
  by (simp add: wf_data_def rise_data_def data_length_def)

lemma default_cfg_simps:
  "initial_balance default_cfg = 10000" "BALANCE_PER_LOT default_cfg = 1000"
  "\<not> random_start default_cfg"
  by (simp_all add: default_cfg_def)

lemma buy_on_flat_2:
  "map_sum id fst (step default_cfg (flat_data 100 2) 1 (init_state default_cfg)) =
     Inr (bought_state 2)"
  by (simp add: sm_defs ex_defs Let_def)

lemma buy_on_flat_0:
  "map_sum id fst (step default_cfg (flat_data 100 0) 1 (init_state default_cfg)) =
     Inr (bought_state 0)"
  by (simp add: sm_defs ex_defs Let_def)

lemma bought_state_reachable_2: "reachable default_cfg (flat_data 100 2) (bought_state 2)"
proof -
  from buy_on_flat_2 obtain out where
    "step default_cfg (flat_data 100 2) 1 (init_state default_cfg) = Inr (bought_state 2, out)"
    by (auto simp: map_sum_fst_Inr)
  then show ?thesis using reach_init reach_step by blast
qed

section \<open>The claims about the state machine\<close>

text \<open>
  C2 (as amended). On a state whose initial balance and peak balance are positive, a
  Close issued through \<open>step\<close> returns and leaves no position open. With no position open
  before it, the close operation itself answers \<open>-0.1\<close> and changes nothing, but \<open>step\<close>
  drops that answer: the reward of the step is \<open>0\<close>, the balance, the trade history and
  the two counters are unchanged, and the peak balance becomes the larger of balance
  and peak. With a position open, the reward is the realized profit divided by the
  initial balance, and a second Close right after it returns reward \<open>0\<close>.
\<close>

theorem close_with_nothing_open:
  assumes "wf_data d" "current_step s + 1 < data_length d" "process_action a = 3"
    "0 < initial_balance cfg" "0 < max_balance s"
  shows "\<exists>s1 o1. step cfg d a s = Inr (s1, o1) \<and> current_position s1 = None \<and>
           (current_position s = None \<longrightarrow>
              step_reward o1 = Fin 0 \<and> balance s1 = balance s \<and> trades s1 = trades s \<and>
              max_balance s1 = max (balance s) (max_balance s) \<and>
              win_count s1 = win_count s \<and> loss_count s1 = loss_count s \<and>
              close_position cfg d (begin_step s) = Inr (begin_step s, Fin (- (1 / 10)))) \<and>
           (\<forall>p. current_position s = Some p \<longrightarrow>
              step_reward o1 =
                Fin (profit_points_of p (p_close d ! (current_step s + 1)) * lot_size p /
                     initial_balance cfg) \<and>
              (current_step s + 2 < data_length d \<longrightarrow>
                 (\<exists>s2 o2. step cfg d a s1 = Inr (s2, o2) \<and> step_reward o2 = Fin 0)))"
proof -
  have i0: "initial_balance cfg \<noteq> 0" using assms(4) by simp
  obtain s1 o1 where S: "step cfg d a s = Inr (s1, o1)"
    using step_total_close[OF assms(1,2,4,5,3)] by blast
  from S obtain sp s2 s3 u dd s4 where
    A: "apply_action cfg d (process_action a) (sp * POINT_VALUE) (begin_step s) = Inr s2"
    and M: "manage_position d s2 = Inr (s3, u)"
    and C: "auto_close cfg d (is_done d s3 dd) s3 = Inr s4"
    and G: "get_history cfg d (s4\<lparr>reward := step_reward o1\<rparr>) = Inr (s1, obs o1)"
    by (rule step_InrE)
  have R: "step_reward o1 = Fin ((balance s1 - balance s) / initial_balance cfg)"
    using step_reward_formula(1)[OF S i0] .
  have n2: "current_position s2 = None" using apply_action_closed[OF A assms(3)] .
  have n3: "current_position s3 = None" using manage_position_Inr(10)[OF M] n2 by simp
  have e34: "s4 = s3" using C n3 by (simp add: auto_close_def)
  have e23: "s3 = s2" using M n2 by (simp add: manage_position_def)
  have n1: "current_position s1 = None" using get_history_Inr(10)[OF G] e34 n3 by simp
  obtain v where cl: "close_position cfg d (begin_step s) = Inr (s2, v)"
    using A assms(3) by (auto simp: apply_action_def map_sum_fst_Inr)
  have keep: "balance s1 = balance s2" "trades s1 = trades s2" "max_balance s1 = max_balance s2"
    "win_count s1 = win_count s2" "loss_count s1 = loss_count s2"
    using get_history_Inr[OF G] e34 e23 by simp_all
  have m1: "max_balance s1 = max (balance s) (max_balance s)"
    using keep(3) close_position_peak[OF cl] by simp
  have none: "current_position s = None \<longrightarrow>
              step_reward o1 = Fin 0 \<and> balance s1 = balance s \<and> trades s1 = trades s \<and>
              max_balance s1 = max (balance s) (max_balance s) \<and>
              win_count s1 = win_count s \<and> loss_count s1 = loss_count s \<and>
              close_position cfg d (begin_step s) = Inr (begin_step s, Fin (- (1 / 10)))"
  proof
    assume N: "current_position s = None"
    then have c0: "close_position cfg d (begin_step s) = Inr (begin_step s, Fin (- (1 / 10)))"
      by (simp add: close_position_None)
    with cl have "s2 = begin_step s" by simp
    then show "step_reward o1 = Fin 0 \<and> balance s1 = balance s \<and> trades s1 = trades s \<and>
              max_balance s1 = max (balance s) (max_balance s) \<and>
              win_count s1 = win_count s \<and> loss_count s1 = loss_count s \<and>
              close_position cfg d (begin_step s) = Inr (begin_step s, Fin (- (1 / 10)))"
      using keep R c0 by simp
  qed
  have some: "step_reward o1 =
                Fin (profit_points_of p (p_close d ! (current_step s + 1)) * lot_size p /
                     initial_balance cfg) \<and>
              (current_step s + 2 < data_length d \<longrightarrow>
                 (\<exists>s2 o2. step cfg d a s1 = Inr (s2, o2) \<and> step_reward o2 = Fin 0))"
    if p: "current_position s = Some p" for p
  proof -
    have "balance s2 =
        balance s + pnl (close_trade p (p_close d ! (current_step s + 1)) (current_step s + 1))"
      using close_position_Some(3)[OF _ cl, of p] p by simp
    then have r1: "step_reward o1 =
        Fin (profit_points_of p (p_close d ! (current_step s + 1)) * lot_size p /
             initial_balance cfg)"
      using R keep(1) by (simp add: close_trade_def)
    have r2: "\<exists>s2 o2. step cfg d a s1 = Inr (s2, o2) \<and> step_reward o2 = Fin 0"
      if "current_step s + 2 < data_length d"
    proof -
      have l1: "current_step s1 + 1 < data_length d" using step_cursor[OF S] that by simp
      have p1: "0 < max_balance s1" using m1 assms(5) by simp
      from step_total_close[OF assms(1) l1 assms(4) p1 assms(3)] obtain s2' o2 where
        S2: "step cfg d a s1 = Inr (s2', o2)"
        by blast
      from S2 obtain sp' t2 t3 u' dd' t4 where
        A': "apply_action cfg d (process_action a) (sp' * POINT_VALUE) (begin_step s1) = Inr t2"
        and M': "manage_position d t2 = Inr (t3, u')"
        and C': "auto_close cfg d (is_done d t3 dd') t3 = Inr t4"
        and G': "get_history cfg d (t4\<lparr>reward := step_reward o2\<rparr>) = Inr (s2', obs o2)"
        by (rule step_InrE)
      have "t2 = begin_step s1"
        using A' assms(3) n1 by (simp add: apply_action_def close_position_None)
      then have "t3 = begin_step s1" using M' n1 by (simp add: manage_position_def)
      then have "t4 = begin_step s1" using C' n1 by (simp add: auto_close_def)
      then have "balance s2' = balance s1" using get_history_Inr(1)[OF G'] by simp
      then have "step_reward o2 = Fin 0" using step_reward_formula(1)[OF S2 i0] by simp
      with S2 show ?thesis by blast
    qed
    show ?thesis using r1 r2 by blast
  qed
  from some have some': "\<forall>p. current_position s = Some p \<longrightarrow>
              step_reward o1 =
                Fin (profit_points_of p (p_close d ! (current_step s + 1)) * lot_size p /
                     initial_balance cfg) \<and>
              (current_step s + 2 < data_length d \<longrightarrow>
                 (\<exists>s2 o2. step cfg d a s1 = Inr (s2, o2) \<and> step_reward o2 = Fin 0))"
    by (intro allI impI)
  show ?thesis
    by (rule exI[of _ s1], rule exI[of _ o1], intro conjI) (rule S n1 none some')+
qed

theorem close_with_nothing_open_witness:
  "(\<exists>s1 o1. step default_cfg (flat_data 100 2) 3 (init_state default_cfg) = Inr (s1, o1) \<and>
      step_reward o1 = Fin 0 \<and> balance s1 = 10000 \<and> trades s1 = [] \<and> max_balance s1 = 10000) \<and>
   (\<exists>s1 o1 s2 o2. step default_cfg (flat_data 100 2) 3 (bought_state 2) = Inr (s1, o1) \<and>
      step_reward o1 = Fin (- (1 / 50000)) \<and>
      step default_cfg (flat_data 100 2) 3 s1 = Inr (s2, o2) \<and> step_reward o2 = Fin 0)"
proof -
  have w: "wf_data (flat_data 100 2)" by (rule flat_data_wf)
  have a: "process_action 3 = 3" by (simp add: process_action_def)
  have i: "0 < initial_balance default_cfg" by (simp add: default_cfg_def)
  have l1: "current_step (init_state default_cfg) + 1 < data_length (flat_data 100 2)"
    by (simp add: flat_data_length init_state_def)
  have l2: "current_step (bought_state 2) + 1 < data_length (flat_data 100 2)"
    by (simp add: flat_data_length bought_state_def)
  have m1: "0 < max_balance (init_state default_cfg)" by (simp add: init_state_def default_cfg_def)
  have m2: "0 < max_balance (bought_state 2)" by (simp add: bought_state_def)
  from close_with_nothing_open[OF w l1 a i m1]
  have first: "\<exists>s1 o1. step default_cfg (flat_data 100 2) 3 (init_state default_cfg) = Inr (s1, o1) \<and>
      step_reward o1 = Fin 0 \<and> balance s1 = 10000 \<and> trades s1 = [] \<and> max_balance s1 = 10000"
    by (auto simp: init_state_def default_cfg_def)
  from close_with_nothing_open[OF w l2 a i m2]
  have second: "\<exists>s1 o1 s2 o2. step default_cfg (flat_data 100 2) 3 (bought_state 2) = Inr (s1, o1) \<and>
      step_reward o1 = Fin (- (1 / 50000)) \<and>
      step default_cfg (flat_data 100 2) 3 s1 = Inr (s2, o2) \<and> step_reward o2 = Fin 0"
    by (auto simp: ex_defs flat_data_length profit_points_of_def POINT_VALUE_def data_length_def)
  show ?thesis using first second by blast
qed

theorem close_with_nothing_open_counterexample:
  "map_sum id (step_reward \<circ> snd)
     (step default_cfg (flat_data 100 2) 3 (init_state default_cfg)) = Inr (Fin 0) \<and>
   map_sum id (step_reward \<circ> snd)
     (step default_cfg (flat_data 100 2) 3 (init_state default_cfg)) \<noteq> Inr (Fin (- (1 / 10))) \<and>
   map_sum id (\<lambda>(s, outs). (current_position s, max_balance s))
     (run default_cfg rise_data [1, 3] (init_state default_cfg)) = Inr (None, 10000) \<and>
   map_sum id (\<lambda>(s, outs). (current_position s, max_balance s, map step_reward outs))
     (run default_cfg rise_data [1, 3, 3] (init_state default_cfg)) =
     Inr (None, 15000, [Fin 0, Fin (1 / 2), Fin 0])"
  by (simp add: sm_defs ex_defs rise_data_def Let_def nth_append)

text \<open>
  C4. Every step that can be taken (the cursor has a next row; the initial balance, the
  balance per lot and the peak balance are such that no division fails) returns, and
  its reward is the change of the balance over the step divided by the initial balance,
  the balance at the start of the step being kept as \<open>previous_balance\<close>. A step that
  closes no trade has reward \<open>0\<close> whatever the prices do, so unrealized movement
  contributes nothing. The value a close operation computes from the hold time is not
  what \<open>step\<close> returns: for any close that accounts for the step's balance change, that
  value differs from the reward whenever the balance did change.
\<close>

theorem step_reward_is_balance_change:
  assumes "wf_data d" "current_step s + 1 < data_length d" "0 < initial_balance cfg"
    "BALANCE_PER_LOT cfg \<noteq> 0" "0 < max_balance s"
  shows "\<exists>s' out. step cfg d a s = Inr (s', out) \<and>
           step_reward out = Fin ((balance s' - balance s) / initial_balance cfg) \<and>
           previous_balance s' = balance s \<and>
           (trades s' = trades s \<longrightarrow> step_reward out = Fin 0) \<and>
           (\<forall>x x' v. close_position cfg d x = Inr (x', v) \<and> current_position x \<noteq> None \<and>
                      balance x = balance s \<and> balance x' = balance s' \<and> balance s' \<noteq> balance s
                      \<longrightarrow> step_reward out \<noteq> v)"
proof -
  have i0: "initial_balance cfg \<noteq> 0" using assms(3) by simp
  obtain s' out where S: "step cfg d a s = Inr (s', out)"
    using step_total[OF assms] by blast
  have R: "step_reward out = Fin ((balance s' - balance s) / initial_balance cfg)"
    and P: "previous_balance s' = balance s"
    using step_reward_formula[OF S i0] by simp_all
  from step_ledger[OF S] obtain ts where
    ts: "trades s' = trades s @ ts" "balance s' = balance s + sum_list (map pnl ts)" by blast
  have Z: "trades s' = trades s \<longrightarrow> step_reward out = Fin 0"
    using ts R by auto
  have D: "step_reward out \<noteq> v"
    if "close_position cfg d x = Inr (x', v)" "current_position x \<noteq> None"
      "balance x = balance s" "balance x' = balance s'" "balance s' \<noteq> balance s" for x x' v
  proof -
    from that(2) obtain p where p: "current_position x = Some p" by auto
    let ?t = "close_trade p (p_close d ! current_step x) (current_step x)"
    have b: "balance x' = balance x + pnl ?t"
      and v: "v = Fin (pnl ?t / initial_balance cfg * 100 * min 1 (real_of_int (hold_time ?t) / 20))"
      using close_position_Some(3,8)[OF p that(1)] i0 by simp_all
    have "pnl ?t = balance s' - balance s" using b that(3,4) by simp
    moreover have "pnl ?t \<noteq> 0" using calculation that(5) by simp
    ultimately show ?thesis
      using hold_scaled_differs[of "pnl ?t" "initial_balance cfg" "hold_time ?t"] i0 v R
      by simp
  qed
  from D have D': "\<forall>x x' v. close_position cfg d x = Inr (x', v) \<and> current_position x \<noteq> None \<and>
                      balance x = balance s \<and> balance x' = balance s' \<and> balance s' \<noteq> balance s
                      \<longrightarrow> step_reward out \<noteq> v"
    by (intro allI impI) (elim conjE)
  show ?thesis
    by (rule exI[of _ s'], rule exI[of _ out], intro conjI) (rule S R P Z D')+
qed

theorem step_reward_is_balance_change_witness:
  "0 < initial_balance default_cfg \<and> BALANCE_PER_LOT default_cfg \<noteq> 0 \<and>
   (\<exists>s' out. step default_cfg (flat_data 100 2) 3 (bought_state 2) = Inr (s', out) \<and>
      step_reward out = Fin ((balance s' - 10000) / 10000) \<and> previous_balance s' = 10000 \<and>
      balance s' = 49999 / 5 \<and> step_reward out \<noteq> Fin (- (1 / 10000))) \<and>
   map_sum id snd (close_position default_cfg (flat_data 100 2) (begin_step (bought_state 2))) =
     Inr (Fin (- (1 / 10000)))"
proof -
  have w: "wf_data (flat_data 100 2)" by (rule flat_data_wf)
  have l: "current_step (bought_state 2) + 1 < data_length (flat_data 100 2)"
    by (simp add: flat_data_length bought_state_def)
  have i: "0 < initial_balance default_cfg" by (simp add: default_cfg_def)
  have q: "BALANCE_PER_LOT default_cfg \<noteq> 0" by (simp add: default_cfg_def)
  have m: "0 < max_balance (bought_state 2)" by (simp add: bought_state_def)
  from step_reward_is_balance_change[OF w l i q m, of 3] obtain s' out where
    S: "step default_cfg (flat_data 100 2) 3 (bought_state 2) = Inr (s', out)"
    and R: "step_reward out =
              Fin ((balance s' - balance (bought_state 2)) / initial_balance default_cfg)"
    and P: "previous_balance s' = balance (bought_state 2)"
    and D: "\<forall>x x' v. close_position default_cfg (flat_data 100 2) x = Inr (x', v) \<and>
              current_position x \<noteq> None \<and> balance x = balance (bought_state 2) \<and>
              balance x' = balance s' \<and> balance s' \<noteq> balance (bought_state 2)
              \<longrightarrow> step_reward out \<noteq> v"
    by blast
  have "map_sum id (balance \<circ> fst) (step default_cfg (flat_data 100 2) 3 (bought_state 2)) =
          Inr (49999 / 5)"
    by (simp add: sm_defs ex_defs Let_def)
  then have b: "balance s' = 49999 / 5" using S by simp
  have cv: "map_sum id snd
      (close_position default_cfg (flat_data 100 2) (begin_step (bought_state 2))) =
        Inr (Fin (- (1 / 10000)))"
    and cb: "map_sum id (balance \<circ> fst)
      (close_position default_cfg (flat_data 100 2) (begin_step (bought_state 2))) =
        Inr (49999 / 5)"
    by (simp_all add: sm_defs ex_defs Let_def)
  then obtain x' where
    c: "close_position default_cfg (flat_data 100 2) (begin_step (bought_state 2)) =
          Inr (x', Fin (- (1 / 10000)))"
    and bx: "balance x' = 49999 / 5"
    by (cases "close_position default_cfg (flat_data 100 2) (begin_step (bought_state 2))") auto
  have "current_position (begin_step (bought_state 2)) \<noteq> None"
    "balance (begin_step (bought_state 2)) = balance (bought_state 2)"
    "balance x' = balance s'" "balance s' \<noteq> balance (bought_state 2)"
    using bx b by (simp_all add: bought_state_def)
  with D c have "step_reward out \<noteq> Fin (- (1 / 10000))" by blast
  then show ?thesis
    using S R P b i q cv by (auto simp: bought_state_def default_cfg_def)
qed

text \<open>
  C6. Every step that can be taken (the cursor has a next row; the initial balance, the
  balance per lot and the peak balance are such that no division fails) returns, and
  it reports \<open>terminated\<close> exactly when, after the action has been applied, the cursor
  stands on the last row, or the balance is at most \<open>0\<close>, or the drawdown
  \<open>(peak - balance) / peak\<close> is at least \<open>0.5\<close> (the value \<open>0.5\<close> included). If one of the
  three holds for the state the step leaves, the step has reported \<open>terminated\<close>. A
  terminated step leaves no position open, and a position that was open at that moment
  has been closed at the current price: its trade is the last of the history and its
  profit is in the balance.
\<close>

theorem step_termination:
  assumes "wf_data d" "current_step s + 1 < data_length d" "0 < initial_balance cfg"
    "BALANCE_PER_LOT cfg \<noteq> 0" "0 < max_balance s"
  shows "\<exists>s' out s2 s3 u.
           step cfg d a s = Inr (s', out) \<and>
           apply_action cfg d (process_action a) (p_spread d ! current_step s * POINT_VALUE)
             (begin_step s) = Inr s2 \<and>
           manage_position d s2 = Inr (s3, u) \<and>
           (terminated out \<longleftrightarrow>
              current_step s' = data_length d - 1 \<or> balance s3 \<le> 0 \<or>
              1 / 2 \<le> (max_balance s3 - balance s3) / max_balance s3) \<and>
           (current_step s' = data_length d - 1 \<or> balance s' \<le> 0 \<or>
              1 / 2 \<le> (max_balance s' - balance s') / max_balance s' \<longrightarrow> terminated out) \<and>
           (terminated out \<longrightarrow>
              current_position s' = None \<and>
              (\<forall>p. current_position s3 = Some p \<longrightarrow>
                 trades s' = trades s3 @ [close_trade p (p_close d ! current_step s') (current_step s')] \<and>
                 balance s' =
                   balance s3 + pnl (close_trade p (p_close d ! current_step s') (current_step s'))))"
proof -
  obtain s' out where S: "step cfg d a s = Inr (s', out)"
    using step_total[OF assms] by blast
  from S obtain sp s2 s3 u dd s4 where
    I: "index (p_spread d) (current_step s) = Inr sp"
    and A: "apply_action cfg d (process_action a) (sp * POINT_VALUE) (begin_step s) = Inr s2"
    and M: "manage_position d s2 = Inr (s3, u)"
    and D: "drawdown s3 = Inr dd"
    and C: "auto_close cfg d (is_done d s3 dd) s3 = Inr s4"
    and G: "get_history cfg d (s4\<lparr>reward := step_reward out\<rparr>) = Inr (s', obs out)"
    and T: "terminated out = is_done d s3 dd"
    by (rule step_InrE)
  have sp: "sp = p_spread d ! current_step s" using I by (simp add: index_Inr_iff)
  have c': "current_step s' = current_step s + 1" using step_cursor[OF S] .
  have c3: "current_step s3 = current_step s + 1"
    using manage_position_Inr(7)[OF M] apply_action_step[OF A] by simp
  have "max_balance s3 \<noteq> 0" using step_peak[OF A M] assms(5) by simp
  then have dd: "dd = Fin ((max_balance s3 - balance s3) / max_balance s3)"
    using D by (simp add: drawdown_nonzero)
  have eod: "end_of_data d s3 \<longleftrightarrow> current_step s' = data_length d - 1"
    using assms(2) c' c3 by (auto simp: end_of_data_def)
  have t1: "terminated out \<longleftrightarrow>
              current_step s' = data_length d - 1 \<or> balance s3 \<le> 0 \<or>
              1 / 2 \<le> (max_balance s3 - balance s3) / max_balance s3"
    using T eod dd by (simp add: is_done_def MAX_DRAWDOWN_def)
  have t3: "terminated out \<longrightarrow>
              current_position s' = None \<and>
              (\<forall>p. current_position s3 = Some p \<longrightarrow>
                 trades s' = trades s3 @ [close_trade p (p_close d ! current_step s') (current_step s')] \<and>
                 balance s' =
                   balance s3 + pnl (close_trade p (p_close d ! current_step s') (current_step s')))"
  proof
    assume "terminated out"
    then have C': "auto_close cfg d True s3 = Inr s4" using C T by simp
    show "current_position s' = None \<and>
              (\<forall>p. current_position s3 = Some p \<longrightarrow>
                 trades s' = trades s3 @ [close_trade p (p_close d ! current_step s') (current_step s')] \<and>
                 balance s' =
                   balance s3 + pnl (close_trade p (p_close d ! current_step s') (current_step s')))"
      using auto_close_done[OF C'] get_history_Inr[OF G] c' c3 by simp
  qed
  have t2: "current_step s' = data_length d - 1 \<or> balance s' \<le> 0 \<or>
              1 / 2 \<le> (max_balance s' - balance s') / max_balance s' \<longrightarrow> terminated out"
  proof (cases "terminated out")
    case True
    then show ?thesis by simp
  next
    case False
    then have "s4 = s3" using C T by (simp add: auto_close_def)
    then have "balance s' = balance s3" "max_balance s' = max_balance s3"
      using get_history_Inr[OF G] by simp_all
    then show ?thesis using t1 by simp
  qed
  show ?thesis
    by (rule exI[of _ s'], rule exI[of _ out], rule exI[of _ s2], rule exI[of _ s3],
        rule exI[of _ u], intro conjI)
       (rule S A[unfolded sp] M t1 t2 t3)+
qed

theorem step_termination_witness:
  "(\<exists>s' out. step default_cfg drop_data 3 held_state = Inr (s', out) \<and>
      balance s' = 5000 \<and> max_balance s' = 10000 \<and> terminated out \<and>
      current_position s' = None) \<and>
   (\<exists>s' out. step default_cfg (flat_data 100 2) 0 late_state = Inr (s', out) \<and>
      current_step s' = 99 \<and> terminated out \<and> current_position s' = None \<and>
      length (trades s') = 1)"
proof -
  have i: "0 < initial_balance default_cfg" by (simp add: default_cfg_def)
  have q: "BALANCE_PER_LOT default_cfg \<noteq> 0" by (simp add: default_cfg_def)
  have w1: "wf_data drop_data" by (simp add: wf_data_def drop_data_def data_length_def)
  have l1: "current_step held_state + 1 < data_length drop_data"
    by (simp add: held_state_def drop_data_def data_length_def)
  have m1: "0 < max_balance held_state" by (simp add: held_state_def)
  from step_termination[OF w1 l1 i q m1, of 3] obtain s' out where
    S: "step default_cfg drop_data 3 held_state = Inr (s', out)"
    and T2: "current_step s' = data_length drop_data - 1 \<or> balance s' \<le> 0 \<or>
              1 / 2 \<le> (max_balance s' - balance s') / max_balance s' \<longrightarrow> terminated out"
    and T3: "terminated out \<longrightarrow> current_position s' = None"
    by blast
  have "map_sum id (balance \<circ> fst) (step default_cfg drop_data 3 held_state) = Inr 5000"
    "map_sum id (max_balance \<circ> fst) (step default_cfg drop_data 3 held_state) = Inr 10000"
    by (simp_all add: sm_defs ex_defs drop_data_def held_state_def Let_def nth_append)
  then have b: "balance s' = 5000" "max_balance s' = 10000" using S by simp_all
  then have "terminated out" using T2 by simp
  then have first: "\<exists>s' out. step default_cfg drop_data 3 held_state = Inr (s', out) \<and>
      balance s' = 5000 \<and> max_balance s' = 10000 \<and> terminated out \<and>
      current_position s' = None"
    using S b T3 by blast
  have w2: "wf_data (flat_data 100 2)" by (rule flat_data_wf)
  have l2: "current_step late_state + 1 < data_length (flat_data 100 2)"
    by (simp add: flat_data_length late_state_def)
  have m2: "0 < max_balance late_state" by (simp add: late_state_def bought_state_def)
  from step_termination[OF w2 l2 i q m2, of 0] obtain t' out' s2 s3 u where
    S': "step default_cfg (flat_data 100 2) 0 late_state = Inr (t', out')"
    and A: "apply_action default_cfg (flat_data 100 2) (process_action 0)
              (p_spread (flat_data 100 2) ! current_step late_state * POINT_VALUE)
              (begin_step late_state) = Inr s2"
    and M: "manage_position (flat_data 100 2) s2 = Inr (s3, u)"
    and U2: "current_step t' = data_length (flat_data 100 2) - 1 \<or> balance t' \<le> 0 \<or>
              1 / 2 \<le> (max_balance t' - balance t') / max_balance t' \<longrightarrow> terminated out'"
    and U3: "terminated out' \<longrightarrow>
              current_position t' = None \<and>
              (\<forall>p. current_position s3 = Some p \<longrightarrow>
                 trades t' = trades s3 @
                   [close_trade p (p_close (flat_data 100 2) ! current_step t') (current_step t')] \<and>
                 balance t' = balance s3 +
                   pnl (close_trade p (p_close (flat_data 100 2) ! current_step t') (current_step t')))"
    by blast
  have c: "current_step t' = 99" using step_cursor[OF S'] by (simp add: late_state_def)
  then have t: "terminated out'" using U2 by (simp add: flat_data_length)
  have "s2 = begin_step late_state" using A by (simp add: apply_action_def process_action_def)
  then have p2: "current_position s2 = Some (bought_pos 2)" "trades s2 = []"
    by (simp_all add: late_state_def bought_state_def)
  from manage_position_pos[OF M p2(1)] obtain p3 where "current_position s3 = Some p3" by blast
  moreover have "trades s3 = []" using manage_position_Inr(4)[OF M] p2(2) by simp
  ultimately have "length (trades t') = 1" using U3 t by simp
  then have second: "\<exists>s' out. step default_cfg (flat_data 100 2) 0 late_state = Inr (s', out) \<and>
      current_step s' = 99 \<and> terminated out \<and> current_position s' = None \<and>
      length (trades s') = 1"
    using S' c t U3 by blast
  show ?thesis using first second by blast
qed

text \<open>
  C3 (as amended). With a balance of 10000 (the initial balance, before any trade) and
  balancePerLot 1000, opening a position when none is open, on a row the data has,
  succeeds and gives the position the lot size \<open>10.0\<close>: the quotient \<open>10000 / 1000\<close>,
  which the rounding to two decimals and the clamp to \<open>[0.01, 100]\<close> leave as it is,
  and not \<open>1.0\<close>.
\<close>

theorem lot_size_on_open:
  assumes "wf_data d" "current_step s < data_length d" "current_position s = None"
    "balance s = 10000" "\<not> balance_np s" "BALANCE_PER_LOT cfg = 1000" "py_round2 cfg 10 = 10"
  shows "\<exists>s' p. execute_trade cfg d dir sp s = Inr s' \<and> current_position s' = Some p \<and>
           lot_size p = 10 \<and>
           compute_lot_size cfg s =
             Inr (clamp_lots (round2 cfg False (Fin (10000 / 1000))))"
  using assms
  by (simp add: execute_trade_def index_def Let_def compute_lot_size_def num_div_def
        wf_data_def MIN_LOTS_def MAX_LOTS_def)

theorem lot_size_on_open_witness:
  "\<exists>s' p. execute_trade default_cfg (flat_data 100 2) 1 (1 / 50) (init_state default_cfg) = Inr s' \<and>
     current_position s' = Some p \<and> lot_size p = 10"
proof -
  have w: "wf_data (flat_data 100 2)" by (rule flat_data_wf)
  have l: "current_step (init_state default_cfg) < data_length (flat_data 100 2)"
    by (simp add: flat_data_length init_state_def)
  have n: "current_position (init_state default_cfg) = None" by (simp add: init_state_def)
  have b: "balance (init_state default_cfg) = 10000" "\<not> balance_np (init_state default_cfg)"
    by (simp_all add: init_state_def default_cfg_def)
  have q: "BALANCE_PER_LOT default_cfg = 1000" "py_round2 default_cfg 10 = 10"
    by (simp_all add: default_cfg_def nearest_cent_10)
  from lot_size_on_open[OF w l n b q, of 1 "1 / 50"] show ?thesis by blast
qed

theorem lot_size_on_open_counterexample:
  "initial_balance default_cfg = 10000 \<and> BALANCE_PER_LOT default_cfg = 1000 \<and>
   map_sum id (map_option lot_size \<circ> current_position)
     (execute_trade default_cfg (flat_data 100 2) 1 (1 / 50) (init_state default_cfg)) =
     Inr (Some 10) \<and>
   map_sum id (map_option lot_size \<circ> current_position)
     (execute_trade default_cfg (flat_data 100 2) 1 (1 / 50) (init_state default_cfg)) \<noteq>
     Inr (Some 1)"
  by (simp add: sm_defs ex_defs Let_def)




text \<open>
  C9. In every state the engine can reach (after construction, after a reset, after any
  step that returned) the win counter plus the loss counter is the length of the trade
  history. The engine has one slot for a position, and an Open on a state whose slot is
  taken changes nothing, so at most one position is ever open.
\<close>

theorem single_position_and_counters:
  assumes "reachable cfg d s"
  shows "win_count s + loss_count s = length (trades s) \<and>
         (current_position s \<noteq> None \<longrightarrow> (\<forall>dir sp. execute_trade cfg d dir sp s = Inr s))"
proof -
  have "win_count s + loss_count s = length (trades s)"
    using assms
  proof (induction rule: reachable.induct)
    case (reach_init cfg d)
    then show ?case by (simp add: init_state_def)
  next
    case (reach_reset cfg d s s' ob)
    then show ?case using reset_result[of cfg d s s' ob] by simp
  next
    case (reach_step cfg d s a s' out)
    then show ?case using step_counts by blast
  qed
  then show ?thesis by (simp add: execute_trade_def)
qed

theorem single_position_and_counters_witness:
  "reachable default_cfg (flat_data 100 2) (bought_state 2) \<and>
   current_position (bought_state 2) \<noteq> None \<and>
   win_count (bought_state 2) + loss_count (bought_state 2) = length (trades (bought_state 2)) \<and>
   execute_trade default_cfg (flat_data 100 2) 2 (1 / 50) (bought_state 2) = Inr (bought_state 2)"
proof -
  have p: "current_position (bought_state 2) \<noteq> None" by (simp add: bought_state_def)
  from single_position_and_counters[OF bought_state_reachable_2] p bought_state_reachable_2
  show ?thesis by blast
qed

text \<open>
  C10 (as amended). A close of an open position whose realized profit is exactly \<open>0\<close>
  increments the loss counter and not the win counter; the trade is among the losing
  trades over which the average loss is recomputed, and the win rate counts in its
  numerator only trades with profit above \<open>0\<close> while the new trade counts in its
  denominator. So a break-even trade never raises the reported win rate, and it lowers
  it exactly when the history already holds a winning trade; with no earlier winner the
  win rate stays \<open>0\<close>.
\<close>

theorem break_even_close:
  assumes "current_position s = Some p" "current_step s < length (p_close d)"
    "profit_points_of p (p_close d ! current_step s) * lot_size p = 0"
  shows "\<exists>s' v t. close_position cfg d s = Inr (s', v) \<and> trades s' = trades s @ [t] \<and> pnl t = 0 \<and>
           loss_count s' = loss_count s + 1 \<and> win_count s' = win_count s \<and>
           t \<in> set (losing_trades (trades s')) \<and> t \<notin> set (winning_trades (trades s')) \<and>
           win_rate (metrics s') =
             real (length (winning_trades (trades s))) / real (length (trades s) + 1) \<and>
           avg_loss (metrics s') =
             sum_list (map pnl (losing_trades (trades s))) /
               real (length (losing_trades (trades s)) + 1) \<and>
           (metrics_consistent s \<longrightarrow>
              win_rate (metrics s') \<le> win_rate (metrics s) \<and>
              (win_rate (metrics s') < win_rate (metrics s) \<longleftrightarrow> winning_trades (trades s) \<noteq> []))"
proof -
  let ?t = "close_trade p (p_close d ! current_step s) (current_step s)"
  have pz: "pnl ?t = 0" using assms(3) by (simp add: close_trade_def)
  obtain s' v where C: "close_position cfg d s = Inr (s', v)"
    using close_position_total[OF assms(2)] by blast
  have tr: "trades s' = trades s @ [?t]" using close_position_Some(2)[OF assms(1) C] .
  have cnt: "loss_count s' = loss_count s + 1" "win_count s' = win_count s"
    using C assms(1,2) pz by (auto simp: close_position_def Let_def index_def)
  have m: "metrics s' = update_metrics (trades s @ [?t]) ((metrics s)\<lparr>current_direction := 0\<rparr>)"
    using C assms(1,2) by (auto simp: close_position_def Let_def index_def)
  have w: "winning_trades (trades s @ [?t]) = winning_trades (trades s)"
    and l: "losing_trades (trades s @ [?t]) = losing_trades (trades s) @ [?t]"
    using pz by (simp_all add: winning_trades_def losing_trades_def)
  have wr: "win_rate (metrics s') =
             real (length (winning_trades (trades s))) / real (length (trades s) + 1)"
    using m w by (simp add: update_metrics_def)
  have al: "avg_loss (metrics s') =
             sum_list (map pnl (losing_trades (trades s))) /
               real (length (losing_trades (trades s)) + 1)"
    using m l pz by (simp add: update_metrics_def)
  have mem: "?t \<in> set (losing_trades (trades s'))" "?t \<notin> set (winning_trades (trades s'))"
    using tr pz by (simp_all add: winning_trades_def losing_trades_def)
  have cmp: "metrics_consistent s \<longrightarrow>
              win_rate (metrics s') \<le> win_rate (metrics s) \<and>
              (win_rate (metrics s') < win_rate (metrics s) \<longleftrightarrow> winning_trades (trades s) \<noteq> [])"
  proof
    assume mc: "metrics_consistent s"
    show "win_rate (metrics s') \<le> win_rate (metrics s) \<and>
              (win_rate (metrics s') < win_rate (metrics s) \<longleftrightarrow> winning_trades (trades s) \<noteq> [])"
    proof (cases "trades s = []")
      case True
      then show ?thesis using mc wr by (simp add: metrics_consistent_def winning_trades_def)
    next
      case False
      define n where "n = length (trades s)"
      define k where "k = length (winning_trades (trades s))"
      have n: "0 < n" using False by (simp add: n_def)
      have before: "win_rate (metrics s) = real k / real n"
        using mc False by (simp add: metrics_consistent_def n_def k_def)
      have after: "win_rate (metrics s') = real k / (real n + 1)"
        using wr by (simp add: n_def k_def)
      have le: "real k / (real n + 1) \<le> real k / real n"
        using n by (simp add: frac_le)
      have lt: "real k / (real n + 1) < real k / real n \<longleftrightarrow> 0 < k"
      proof (cases "k = 0")
        case True
        then show ?thesis by simp
      next
        case False
        then have "0 < real k" by simp
        moreover have "0 < real n" "real n < real n + 1" using n by simp_all
        ultimately have "real k / (real n + 1) < real k / real n"
          by (intro divide_strict_left_mono) simp_all
        then show ?thesis using False by simp
      qed
      show ?thesis using before after le lt by (simp add: k_def)
    qed
  qed
  show ?thesis
    by (rule exI[of _ s'], rule exI[of _ v], rule exI[of _ ?t], intro conjI)
       (rule C tr pz cnt mem wr al cmp)+
qed

theorem break_even_close_witness:
  "metrics_consistent (begin_step (bought_state 0)) \<and>
   (\<exists>s' v t. close_position default_cfg (flat_data 100 0) (begin_step (bought_state 0)) = Inr (s', v) \<and>
      trades s' = [t] \<and> pnl t = 0 \<and> loss_count s' = 1 \<and> win_count s' = 0 \<and>
      win_rate (metrics s') = 0 \<and> avg_loss (metrics s') = 0 \<and>
      \<not> win_rate (metrics s') < win_rate (metrics (begin_step (bought_state 0))))"
proof -
  have p: "current_position (begin_step (bought_state 0)) = Some (bought_pos 0)"
    by (simp add: bought_state_def)
  have l: "current_step (begin_step (bought_state 0)) < length (p_close (flat_data 100 0))"
    by (simp add: bought_state_def flat_data_def)
  have z: "profit_points_of (bought_pos 0)
             (p_close (flat_data 100 0) ! current_step (begin_step (bought_state 0))) *
           lot_size (bought_pos 0) = 0"
    by (simp add: bought_state_def bought_pos_def flat_data_def profit_points_of_def)
  have mc: "metrics_consistent (begin_step (bought_state 0))"
    by (simp add: metrics_consistent_def bought_state_def zero_metrics_def)
  from break_even_close[OF p l z, of default_cfg] mc show ?thesis
    by (auto simp: bought_state_def winning_trades_def losing_trades_def)
qed

theorem break_even_close_counterexample:
  "map_sum id (map pnl \<circ> trades \<circ> fst)
     (run default_cfg (flat_data 100 0) [1, 3] (init_state default_cfg)) = Inr [0] \<and>
   map_sum id (loss_count \<circ> fst)
     (run default_cfg (flat_data 100 0) [1, 3] (init_state default_cfg)) = Inr 1 \<and>
   map_sum id (win_rate \<circ> metrics \<circ> fst)
     (run default_cfg (flat_data 100 0) [1] (init_state default_cfg)) = Inr 0 \<and>
   map_sum id (win_rate \<circ> metrics \<circ> fst)
     (run default_cfg (flat_data 100 0) [1, 3] (init_state default_cfg)) = Inr 0"
  by (simp add: sm_defs ex_defs Let_def)




section \<open>The claims about the feature pipeline\<close>

text \<open>
  C5 (the code on a window of gains only). A table of 133 bars whose close rises by one
  unit per bar is accepted by the constructor, which keeps the 100 rows from bar 33 on.
  At bar 33 the 14-row window holds 14 gains of \<open>1\<close> and no loss: the gain average is
  \<open>1\<close> and the loss average is exactly \<open>0\<close>. The gain/loss ratio is left at \<open>0\<close> there,
  and the oscillator \<open>100 - 100 / (1 + ratio)\<close> is \<open>0\<close>, not \<open>100\<close>: the first
  observation row carries the normalized value \<open>-1\<close>, the reading of a window of losses
  only.
\<close>

theorem rsi_all_gains_window:
  "length (rising_bars 133) = 133 \<and>
   gain (rising_bars 133) ! 33 = Some 1 \<and> loss (rising_bars 133) ! 33 = Some 0 \<and>
   rs (rising_bars 133) ! 33 = Some 0 \<and> rsi (rising_bars 133) ! 33 = Some 0 \<and>
   rsi (rising_bars 133) ! 33 \<noteq> Some 100 \<and> rsi_norm (rising_bars 133) ! 33 = Some (- 1) \<and>
   map_sum id (\<lambda>d. (data_length d, raw_data d ! 0 ! 1)) (preprocess_data (rising_bars 133)) =
     Inr (100, Fin (- 1))"
proof -
  have l: "loss (rising_bars 133) ! 33 = Some 0" by (simp add: loss_rising)
  have g: "gain (rising_bars 133) ! 33 = Some 1" by (simp add: gain_rising)
  have r: "rs (rising_bars 133) ! 33 = Some 0 \<and> rsi (rising_bars 133) ! 33 = Some 0 \<and>
           rsi_norm (rising_bars 133) ! 33 = Some (- 1)"
    using rsi_at_zero_loss [of 33 "rising_bars 133"] l by simp
  have "map_sum id (\<lambda>d. (data_length d, raw_data d ! 0 ! 1)) (preprocess_data (rising_bars 133)) =
     Inr (100, Fin (- 1))"
    using preprocess_row_rsi[OF rising_bars_wf, of 133 0] r by (simp add: of_opt_def)
  then show ?thesis using l g r by simp
qed

text \<open>
  C1 (the code on 120 bars). A table of 120 flat bars is well formed and has 120 rows.
  The rows with an undefined value are the first 13, the warm-up of the 14-period means;
  they are dropped, not filled, which leaves 107 rows, and the 20-row warm-up is then
  cut from those: 87 rows remain, fewer than 100, and construction fails with the
  insufficient-data error instead of succeeding with 100 rows.
\<close>

theorem preprocess_120_flat_bars:
  "length (replicate 120 (flat_bar 2)) = 120 \<and>
   length (dropna (features_df (replicate 120 (flat_bar 2)))) = 107 \<and>
   preprocess_data (replicate 120 (flat_bar 2)) = Inl (InsufficientData 87)"
proof -
  have w: "\<forall>b\<in>set (replicate 120 (flat_bar 2)). wf_bar b"
    by (simp add: wf_bar_def flat_bar_def)
  from preprocess_wf_bars[OF w] dropna_wf_bars[OF w] show ?thesis by simp
qed

end
